theory Spec2Isabelle
  imports Complex_Main "HOL-Library.Sublist"
begin

section \<open>JavaScript numbers\<close>

text \<open>
  The risk analysis of \<^verbatim>\<open>src/lib/utils.ts\<close> is pure TypeScript over numbers and
  strings. A JavaScript number is an IEEE double: it is modelled by the real number it
  denotes, with the three special values written out. Every finite double is such a
  value, and the properties below hold for every real, so for every double. Every
  comparison of the source is one of \<open>js_lt\<close>, \<open>js_le\<close>, \<open>js_gt\<close>, \<open>js_ge\<close>,
  which are false as soon as one side is \<open>NaN\<close>, as the language has it.
\<close>

datatype jsnum = NaN | NegInf | Finite real | PosInf

fun js_lt :: "jsnum \<Rightarrow> jsnum \<Rightarrow> bool" where
  "js_lt NaN y = False"
| "js_lt x NaN = False"
| "js_lt PosInf y = False"
| "js_lt x NegInf = False"
| "js_lt NegInf y = True"
| "js_lt x PosInf = True"
| "js_lt (Finite a) (Finite b) = (a < b)"

definition js_le :: "jsnum \<Rightarrow> jsnum \<Rightarrow> bool" where
  "js_le x y = (x \<noteq> NaN \<and> y \<noteq> NaN \<and> \<not> js_lt y x)"

definition js_gt :: "jsnum \<Rightarrow> jsnum \<Rightarrow> bool" where
  "js_gt x y = js_lt y x"

definition js_ge :: "jsnum \<Rightarrow> jsnum \<Rightarrow> bool" where
  "js_ge x y = js_le y x"

fun js_neg :: "jsnum \<Rightarrow> jsnum" where
  "js_neg NaN = NaN"
| "js_neg NegInf = PosInf"
| "js_neg (Finite r) = Finite (- r)"
| "js_neg PosInf = NegInf"

text \<open>
  The number literals of the source. \<open>99.5\<close>, \<open>101.0\<close> and the integers are doubles
  themselves; \<open>99.6\<close> is not, and the literal denotes the double nearest to it,
  \<open>3504363460047667 / 2 ^ 45\<close>, which is the number every \<open>>= 99.6\<close> of the source
  compares with.
\<close>

definition double_99_6 :: real where
  "double_99_6 = 3504363460047667 / 35184372088832"

section \<open>Rounding to a double\<close>

text \<open>
  The text of a number is read as a fraction \<open>p / q\<close> of natural numbers and rounded to
  the nearest double, ties to the even significand: \<open>floor_log2\<close> is the binary
  exponent of the fraction, kept from falling below that of the smallest normal double;
  the fraction is scaled to 53 bits at that exponent and rounded to a whole number
  there; a result of \<open>2 ^ 1024\<close> or more is infinity.
\<close>

fun bit_length :: "nat \<Rightarrow> nat" where
  "bit_length n = (if n = 0 then 0 else 1 + bit_length (n div 2))"

definition floor_log2 :: "nat \<Rightarrow> nat \<Rightarrow> int" where
  "floor_log2 p q =
     (let d = int (bit_length p) - int (bit_length q) in
      if (if 0 \<le> d then q * 2 ^ nat d \<le> p else q \<le> p * 2 ^ nat (- d)) then d else d - 1)"

definition round_half_even :: "nat \<Rightarrow> nat \<Rightarrow> nat" where
  "round_half_even num den =
     (let qu = num div den; re = num mod den in
      if 2 * re < den then qu
      else if den < 2 * re then qu + 1
      else if even qu then qu else qu + 1)"

definition round_double :: "nat \<Rightarrow> nat \<Rightarrow> jsnum" where
  "round_double p q =
     (if p = 0 then Finite 0
      else
        let e = max (floor_log2 p q) (- 1022) in
        if e \<le> 52
        then Finite (real (round_half_even (p * 2 ^ nat (52 - e)) q) / 2 ^ nat (52 - e))
        else
          let m = round_half_even p (q * 2 ^ nat (e - 52)) * 2 ^ nat (e - 52) in
          if 2 ^ 1024 \<le> m then PosInf else Finite (real m))"

definition double_of_nat :: "nat \<Rightarrow> jsnum" where
  "double_of_nat n = round_double n 1"

section \<open>The text of a number\<close>

text \<open>
  A string is a list of characters. The conversion of a string to a number drops the
  white space around it; the empty text is 0; otherwise the text is a binary, octal or
  hexadecimal integer with its prefix, or a decimal literal with an optional sign,
  fraction and exponent, or \<^verbatim>\<open>Infinity\<close>; any other text is \<open>NaN\<close>.
\<close>

definition is_digit :: "char \<Rightarrow> bool" where
  "is_digit c = (c \<in> set ''0123456789'')"

definition is_white :: "char \<Rightarrow> bool" where
  "is_white c = (c \<in> set [CHR 0x09, CHR 0x0A, CHR 0x0B, CHR 0x0C, CHR 0x0D, CHR '' '', CHR 0xA0])"

definition digit_of :: "char \<Rightarrow> nat option" where
  "digit_of c =
     (let n = (of_char c :: nat) in
      if 48 \<le> n \<and> n \<le> 57 then Some (n - 48)
      else if 97 \<le> n \<and> n \<le> 122 then Some (n - 87)
      else if 65 \<le> n \<and> n \<le> 90 then Some (n - 55)
      else None)"

definition in_radix :: "nat \<Rightarrow> char \<Rightarrow> bool" where
  "in_radix r c = (case digit_of c of None \<Rightarrow> False | Some d \<Rightarrow> d < r)"

definition radix_value :: "nat \<Rightarrow> string \<Rightarrow> nat" where
  "radix_value r ds =
     foldl (\<lambda>n c. r * n + (case digit_of c of None \<Rightarrow> 0 | Some d \<Rightarrow> d)) 0 ds"

definition trim :: "string \<Rightarrow> string" where
  "trim s = rev (dropWhile is_white (rev (dropWhile is_white s)))"

definition exponent_part :: "string \<Rightarrow> int option" where
  "exponent_part s =
     (case s of
        [] \<Rightarrow> Some 0
      | c # t \<Rightarrow>
          if c = CHR ''e'' \<or> c = CHR ''E''
          then (let neg = (case t of [] \<Rightarrow> False | d # _ \<Rightarrow> d = CHR ''-'');
                    ds = (case t of [] \<Rightarrow> []
                          | d # u \<Rightarrow> if d = CHR ''-'' \<or> d = CHR ''+'' then u else t)
                in if ds \<noteq> [] \<and> list_all is_digit ds
                   then Some ((if neg then - 1 else 1) * int (radix_value 10 ds))
                   else None)
          else None)"

definition unsigned_decimal :: "string \<Rightarrow> jsnum" where
  "unsigned_decimal s =
     (if s = ''Infinity'' then PosInf
      else
        let ip = takeWhile is_digit s;
            r1 = dropWhile is_digit s;
            dot = (case r1 of [] \<Rightarrow> False | c # _ \<Rightarrow> c = CHR ''.'');
            fp = (if dot then takeWhile is_digit (tl r1) else []);
            r2 = (if dot then dropWhile is_digit (tl r1) else r1)
        in if ip = [] \<and> fp = [] then NaN
           else case exponent_part r2 of
                  None \<Rightarrow> NaN
                | Some k \<Rightarrow>
                    let m = radix_value 10 (ip @ fp); x = k - int (length fp) in
                    if 0 \<le> x then round_double (m * 10 ^ nat x) 1
                    else round_double m (10 ^ nat (- x)))"

definition signed_decimal :: "string \<Rightarrow> jsnum" where
  "signed_decimal s =
     (case s of
        [] \<Rightarrow> NaN
      | c # t \<Rightarrow>
          if c = CHR ''+'' then unsigned_decimal t
          else if c = CHR ''-'' then js_neg (unsigned_decimal t)
          else unsigned_decimal s)"

definition non_decimal :: "string \<Rightarrow> jsnum option" where
  "non_decimal s =
     (case s of
        z # p # ds \<Rightarrow>
          (let r = (if p = CHR ''x'' \<or> p = CHR ''X'' then 16
                    else if p = CHR ''o'' \<or> p = CHR ''O'' then 8
                    else if p = CHR ''b'' \<or> p = CHR ''B'' then 2 else (0::nat))
           in if z = CHR ''0'' \<and> 0 < r \<and> ds \<noteq> [] \<and> list_all (in_radix r) ds
              then Some (round_double (radix_value r ds) 1)
              else None)
      | _ \<Rightarrow> None)"

definition string_to_number :: "string \<Rightarrow> jsnum" where
  "string_to_number s =
     (let t = trim s in
      if t = [] then Finite 0
      else case non_decimal t of Some n \<Rightarrow> n | None \<Rightarrow> signed_decimal t)"

section \<open>JavaScript values\<close>

text \<open>
  A patient record is read from a response that nothing validates, so a field may hold
  any value such a response can carry, or none: \<^verbatim>\<open>undefined\<close>, \<^verbatim>\<open>null\<close>, a
  boolean, a number, a string, an array of values, an object. \<open>JObject\<close> stands for an
  object with the conversions every object inherits.

  \<open>to_number\<close> is the conversion that \<^verbatim>\<open>isNaN\<close> and the comparison with a number
  apply to their operand. An array converts through its text, the texts of its elements
  joined by commas: the empty array as the empty text, an array of one element as the
  text of that element (none for \<^verbatim>\<open>null\<close> and \<^verbatim>\<open>undefined\<close>), and no text with a
  comma is a number. The text of a number reads back as that number, the text of a
  boolean and of an object as \<open>NaN\<close>.
\<close>

datatype jsval =
  JUndefined | JNull | JBoolean bool | JNumber jsnum | JString string | JArray "jsval list"
  | JObject

fun to_boolean :: "jsval \<Rightarrow> bool" where
  "to_boolean JUndefined = False"
| "to_boolean JNull = False"
| "to_boolean (JBoolean b) = b"
| "to_boolean (JNumber n) = (n \<noteq> NaN \<and> n \<noteq> Finite 0)"
| "to_boolean (JString s) = (s \<noteq> [])"
| "to_boolean (JArray xs) = True"
| "to_boolean JObject = True"

fun js_typeof :: "jsval \<Rightarrow> string" where
  "js_typeof JUndefined = ''undefined''"
| "js_typeof JNull = ''object''"
| "js_typeof (JBoolean b) = ''boolean''"
| "js_typeof (JNumber n) = ''number''"
| "js_typeof (JString s) = ''string''"
| "js_typeof (JArray xs) = ''object''"
| "js_typeof JObject = ''object''"

fun to_number :: "jsval \<Rightarrow> jsnum" where
  "to_number JUndefined = NaN"
| "to_number JNull = Finite 0"
| "to_number (JBoolean b) = (if b then Finite 1 else Finite 0)"
| "to_number (JNumber n) = n"
| "to_number (JString s) = string_to_number s"
| "to_number JObject = NaN"
| "to_number (JArray []) = Finite 0"
| "to_number (JArray [JUndefined]) = Finite 0"
| "to_number (JArray [JNull]) = Finite 0"
| "to_number (JArray [JBoolean b]) = NaN"
| "to_number (JArray [JNumber n]) = n"
| "to_number (JArray [JString s]) = string_to_number s"
| "to_number (JArray [JObject]) = NaN"
| "to_number (JArray [JArray xs]) = to_number (JArray xs)"
| "to_number (JArray (x # y # zs)) = NaN"

definition isNaN :: "jsval \<Rightarrow> bool" where
  "isNaN v = (to_number v = NaN)"

datatype js_error = TypeError

section \<open>The regular expression \<^verbatim>\<open>/(\d+)\/(\d+)/\<close>\<close>

text \<open>
  The pattern is a sequence of three items: a capturing group of one or more digits,
  the character \<^verbatim>\<open>/\<close>, and a second such group. \<open>rx_match\<close> matches a sequence of
  items at the start of a string by backtracking: a group first takes as many
  characters as it can and gives them back one at a time while the rest of the pattern
  fails. It returns the text matched and the groups captured.
\<close>

datatype rx_atom = Digit | Lit char

fun atom_ok :: "rx_atom \<Rightarrow> char \<Rightarrow> bool" where
  "atom_ok Digit c = is_digit c"
| "atom_ok (Lit d) c = (c = d)"

datatype rx_item = Single rx_atom | GroupPlus rx_atom

fun try_lengths ::
  "(string \<Rightarrow> (string \<times> string list) option) \<Rightarrow> string \<Rightarrow> nat \<Rightarrow> (string \<times> string list) option"
where
  "try_lengths k s 0 = None"
| "try_lengths k s (Suc n) =
     (case k (drop (Suc n) s) of
        Some (w, gs) \<Rightarrow> Some (take (Suc n) s @ w, take (Suc n) s # gs)
      | None \<Rightarrow> try_lengths k s n)"

primrec rx_match :: "rx_item list \<Rightarrow> string \<Rightarrow> (string \<times> string list) option" where
  "rx_match [] = (\<lambda>s. Some ([], []))"
| "rx_match (i # is) =
     (case i of
        Single a \<Rightarrow>
          (\<lambda>s. case s of
                  [] \<Rightarrow> None
                | c # cs \<Rightarrow>
                    if atom_ok a c
                    then (case rx_match is cs of
                            Some (w, gs) \<Rightarrow> Some (c # w, gs)
                          | None \<Rightarrow> None)
                    else None)
      | GroupPlus a \<Rightarrow>
          (\<lambda>s. try_lengths (rx_match is) s (length (takeWhile (atom_ok a) s))))"

text \<open>The search tries every start position from the left, the end of the string included.\<close>

fun rx_search :: "rx_item list \<Rightarrow> string \<Rightarrow> (string \<times> string list) option" where
  "rx_search p [] = rx_match p []"
| "rx_search p (c # cs) =
     (case rx_match p (c # cs) of
        Some m \<Rightarrow> Some m
      | None \<Rightarrow> rx_search p cs)"

definition bp_pattern :: "rx_item list" where
  "bp_pattern = [GroupPlus Digit, Single (Lit (CHR ''/'')), GroupPlus Digit]"

text \<open>
  \<^verbatim>\<open>bp.match(/(\d+)\/(\d+)/)\<close>: the array of the whole match followed by the
  groups, or \<^verbatim>\<open>null\<close>. On a value that is not a string there is no such method and
  the call throws.
\<close>

definition js_match :: "jsval \<Rightarrow> js_error + string list option" where
  "js_match v =
     (case v of
        JString s \<Rightarrow>
          Inr (case rx_search bp_pattern s of
                 None \<Rightarrow> None
               | Some (w, gs) \<Rightarrow> Some (w # gs))
      | _ \<Rightarrow> Inl TypeError)"

text \<open>
  Reading an array element that is not there gives \<^verbatim>\<open>undefined\<close>, which
  \<^verbatim>\<open>parseInt\<close> reads as the string \<^verbatim>\<open>"undefined"\<close>.
\<close>

definition js_index :: "string list \<Rightarrow> nat \<Rightarrow> string" where
  "js_index xs i = (if i < length xs then xs ! i else ''undefined'')"

section \<open>\<^verbatim>\<open>parseInt\<close>\<close>

text \<open>
  \<^verbatim>\<open>parseInt\<close> with no radix: leading white space is dropped, then a sign, then a
  \<^verbatim>\<open>0x\<close> prefix that selects base 16; the longest run of digits of the base is the
  value, and there is none when the run is empty. The result is a number: the value
  rounded to a double.
\<close>

definition parseInt :: "string \<Rightarrow> jsnum" where
  "parseInt str =
     (let s = dropWhile is_white str;
          neg = (case s of [] \<Rightarrow> False | c # _ \<Rightarrow> c = CHR ''-'');
          s1 = (case s of [] \<Rightarrow> [] | c # cs \<Rightarrow> if c = CHR ''-'' \<or> c = CHR ''+'' then cs else s);
          hex = (take 2 s1 = ''0x'' \<or> take 2 s1 = ''0X'');
          r = (if hex then 16 else 10);
          s2 = (if hex then drop 2 s1 else s1);
          z = takeWhile (in_radix r) s2
      in if z = [] then NaN
         else if neg then js_neg (double_of_nat (radix_value r z))
         else double_of_nat (radix_value r z))"

section \<open>The patient record and the risk analysis\<close>

datatype gender = GenderM | GenderF

record Patient =
  patient_id :: string
  name :: string
  age :: jsval
  gender :: gender
  blood_pressure :: jsval
  temperature :: jsval
  visit_date :: string
  diagnosis :: string
  medications :: string

record RiskScores =
  bloodPressure :: int
  temperature_score :: int
  age_score :: int
  total :: int

record PatientRiskAnalysis =
  patientId :: string
  riskScores :: RiskScores
  isHighRisk :: bool
  hasFever :: bool
  hasDataQualityIssues_flag :: bool

text \<open>
  The object \<^verbatim>\<open>parseBloodPressure\<close> returns: each field is there or not
  (\<^verbatim>\<open>systolic?: number\<close>).
\<close>

record BPReading =
  systolic :: "jsnum option"
  diastolic :: "jsnum option"

definition parseBloodPressure :: "jsval \<Rightarrow> js_error + BPReading" where
  "parseBloodPressure bp =
     (if \<not> to_boolean bp \<or> js_typeof bp \<noteq> ''string''
      then Inr \<lparr>systolic = None, diastolic = None\<rparr>
      else case js_match bp of
             Inl e \<Rightarrow> Inl e
           | Inr None \<Rightarrow> Inr \<lparr>systolic = None, diastolic = None\<rparr>
           | Inr (Some m) \<Rightarrow>
               Inr \<lparr>systolic = Some (parseInt (js_index m 1)),
                    diastolic = Some (parseInt (js_index m 2))\<rparr>)"

text \<open>
  The body of \<^verbatim>\<open>calculateBloodPressureRisk\<close> after the parse, on the two fields of
  the reading.
\<close>

definition bloodPressureScore :: "jsnum option \<Rightarrow> jsnum option \<Rightarrow> int" where
  "bloodPressureScore sys dia =
     (case (sys, dia) of
        (Some s, Some d) \<Rightarrow>
          if js_lt s (Finite 120) \<and> js_lt d (Finite 80) then 0
          else if js_ge s (Finite 120) \<and> js_le s (Finite 129) \<and> js_lt d (Finite 80) then 1
          else if (js_ge s (Finite 130) \<and> js_le s (Finite 139))
                  \<or> (js_ge d (Finite 80) \<and> js_le d (Finite 89)) then 2
          else if js_ge s (Finite 140) \<or> js_ge d (Finite 90) then 3
          else 0
      | _ \<Rightarrow> 0)"

definition calculateBloodPressureRisk :: "jsval \<Rightarrow> js_error + int" where
  "calculateBloodPressureRisk bp =
     (case parseBloodPressure bp of
        Inl e \<Rightarrow> Inl e
      | Inr r \<Rightarrow> Inr (bloodPressureScore (systolic r) (diastolic r)))"

text \<open>
  The same chain of tests, returning which of the six \<^verbatim>\<open>return\<close> statements of
  \<^verbatim>\<open>calculateBloodPressureRisk\<close> is taken, in the order of the source.
\<close>

datatype bp_return =
  ReturnInvalid | ReturnNormal | ReturnElevated | ReturnStage1 | ReturnStage2 | ReturnDefault

fun return_value :: "bp_return \<Rightarrow> int" where
  "return_value ReturnInvalid = 0"
| "return_value ReturnNormal = 0"
| "return_value ReturnElevated = 1"
| "return_value ReturnStage1 = 2"
| "return_value ReturnStage2 = 3"
| "return_value ReturnDefault = 0"

definition bloodPressureReturn :: "jsnum option \<Rightarrow> jsnum option \<Rightarrow> bp_return" where
  "bloodPressureReturn sys dia =
     (case (sys, dia) of
        (Some s, Some d) \<Rightarrow>
          if js_lt s (Finite 120) \<and> js_lt d (Finite 80) then ReturnNormal
          else if js_ge s (Finite 120) \<and> js_le s (Finite 129) \<and> js_lt d (Finite 80)
          then ReturnElevated
          else if (js_ge s (Finite 130) \<and> js_le s (Finite 139))
                  \<or> (js_ge d (Finite 80) \<and> js_le d (Finite 89)) then ReturnStage1
          else if js_ge s (Finite 140) \<or> js_ge d (Finite 90) then ReturnStage2
          else ReturnDefault
      | _ \<Rightarrow> ReturnInvalid)"

definition calculateBloodPressureReturn :: "jsval \<Rightarrow> js_error + bp_return" where
  "calculateBloodPressureReturn bp =
     (case parseBloodPressure bp of
        Inl e \<Rightarrow> Inl e
      | Inr r \<Rightarrow> Inr (bloodPressureReturn (systolic r) (diastolic r)))"

definition calculateTemperatureRisk :: "jsval \<Rightarrow> int" where
  "calculateTemperatureRisk temp =
     (if temp = JNull \<or> temp = JUndefined \<or> isNaN temp then 0
      else if js_le (to_number temp) (Finite 99.5) then 0
      else if js_ge (to_number temp) (Finite double_99_6) \<and> js_lt (to_number temp) (Finite 101)
      then 1
      else if js_ge (to_number temp) (Finite 101) then 2
      else 0)"

definition calculateAgeRisk :: "jsval \<Rightarrow> int" where
  "calculateAgeRisk a =
     (if a = JNull \<or> a = JUndefined \<or> isNaN a then 0
      else if js_lt (to_number a) (Finite 40) then 0
      else if js_ge (to_number a) (Finite 40) \<and> js_le (to_number a) (Finite 65) then 1
      else if js_gt (to_number a) (Finite 65) then 2
      else 0)"

definition hasDataQualityIssues :: "Patient \<Rightarrow> js_error + bool" where
  "hasDataQualityIssues patient =
     (case parseBloodPressure (blood_pressure patient) of
        Inl e \<Rightarrow> Inl e
      | Inr r \<Rightarrow>
          Inr (if systolic r = None \<or> diastolic r = None then True
               else if temperature patient = JNull \<or> temperature patient = JUndefined
                       \<or> isNaN (temperature patient) then True
               else if age patient = JNull \<or> age patient = JUndefined
                       \<or> isNaN (age patient) then True
               else False))"

definition checkRisk :: "Patient \<Rightarrow> js_error + PatientRiskAnalysis" where
  "checkRisk patient =
     (case calculateBloodPressureRisk (blood_pressure patient) of
        Inl e \<Rightarrow> Inl e
      | Inr bloodPressureRisk \<Rightarrow>
          let temperatureRisk = calculateTemperatureRisk (temperature patient);
              ageRisk = calculateAgeRisk (age patient);
              totalRisk = bloodPressureRisk + temperatureRisk + ageRisk;
              fever = (js_ge (to_number (temperature patient)) (Finite double_99_6)
                       \<and> temperature patient \<noteq> JNull
                       \<and> temperature patient \<noteq> JUndefined
                       \<and> \<not> isNaN (temperature patient))
          in case hasDataQualityIssues patient of
               Inl e \<Rightarrow> Inl e
             | Inr dq \<Rightarrow>
                 Inr \<lparr>patientId = patient_id patient,
                      riskScores = \<lparr>bloodPressure = bloodPressureRisk,
                                    temperature_score = temperatureRisk,
                                    age_score = ageRisk,
                                    total = totalRisk\<rparr>,
                      isHighRisk = (totalRisk \<ge> 4),
                      hasFever = fever,
                      hasDataQualityIssues_flag = dq\<rparr>)"

text \<open>\<^verbatim>\<open>patients.map(checkRisk)\<close>: the first call that throws ends the loop.\<close>

fun map_checked :: "('a \<Rightarrow> js_error + 'b) \<Rightarrow> 'a list \<Rightarrow> js_error + 'b list" where
  "map_checked f [] = Inr []"
| "map_checked f (x # xs) =
     (case f x of
        Inl e \<Rightarrow> Inl e
      | Inr y \<Rightarrow> (case map_checked f xs of Inl e \<Rightarrow> Inl e | Inr ys \<Rightarrow> Inr (y # ys)))"

record AnalysisResult =
  highRiskPatients :: "string list"
  feverPatients :: "string list"
  dataQualityIssues :: "string list"
  analyses :: "PatientRiskAnalysis list"

definition analyzePatients :: "Patient list \<Rightarrow> js_error + AnalysisResult" where
  "analyzePatients patients =
     (case map_checked checkRisk patients of
        Inl e \<Rightarrow> Inl e
      | Inr as \<Rightarrow>
          Inr \<lparr>highRiskPatients = map patientId (filter isHighRisk as),
               feverPatients = map patientId (filter hasFever as),
               dataQualityIssues = map patientId (filter hasDataQualityIssues_flag as),
               analyses = as\<rparr>)"

section \<open>The notions the properties are stated with\<close>

text \<open>
  A reading is one or more digits, \<^verbatim>\<open>/\<close>, one or more digits. \<open>reading_at\<close> places
  one in a string, between the text before it and the text after it.
\<close>

definition digits :: "string \<Rightarrow> bool" where
  "digits ds = (ds \<noteq> [] \<and> list_all is_digit ds)"

definition reading_at :: "string \<Rightarrow> string \<Rightarrow> string \<Rightarrow> string \<Rightarrow> string \<Rightarrow> bool" where
  "reading_at s pre g1 g2 post = (s = pre @ g1 @ CHR ''/'' # g2 @ post \<and> digits g1 \<and> digits g2)"

definition contains_reading :: "string \<Rightarrow> bool" where
  "contains_reading s = (\<exists>pre g1 g2 post. reading_at s pre g1 g2 post)"

text \<open>The number a string of decimal digits spells.\<close>

definition dec_value :: "string \<Rightarrow> nat" where
  "dec_value ds = foldl (\<lambda>n c. 10 * n + (of_char c - 48)) 0 ds"

definition from_nat :: "nat \<Rightarrow> jsnum" where
  "from_nat n = Finite (real n)"

text \<open>
  The reading at the very start of a string, with both groups as long as they can be:
  what the pattern matches there.
\<close>

definition reading_prefix :: "string \<Rightarrow> (string \<times> string) option" where
  "reading_prefix s =
     (let g1 = takeWhile is_digit s in
      case dropWhile is_digit s of
        [] \<Rightarrow> None
      | c # cs \<Rightarrow>
          if g1 \<noteq> [] \<and> c = CHR ''/'' \<and> takeWhile is_digit cs \<noteq> []
          then Some (g1, takeWhile is_digit cs)
          else None)"

text \<open>The first reading of a string, scanning the start positions from the left.\<close>

fun first_reading :: "string \<Rightarrow> (string \<times> string) option" where
  "first_reading [] = None"
| "first_reading (c # cs) =
     (case reading_prefix (c # cs) of
        Some r \<Rightarrow> Some r
      | None \<Rightarrow> first_reading cs)"

text \<open>
  A reading placed in a string is the leftmost one, as long as it can be, when no
  reading starts before it and no digit follows it.
\<close>

definition leftmost_reading :: "string \<Rightarrow> string \<Rightarrow> string \<Rightarrow> string \<Rightarrow> string \<Rightarrow> bool" where
  "leftmost_reading s pre g1 g2 post =
     (reading_at s pre g1 g2 post
      \<and> (\<forall>pre' g1' g2' post'. reading_at s pre' g1' g2' post' \<longrightarrow> length pre \<le> length pre')
      \<and> (case post of [] \<Rightarrow> True | c # _ \<Rightarrow> \<not> is_digit c))"

text \<open>
  The blood-pressure policy as the specification words it: six rules in priority
  order, each a condition on the parsed systolic and diastolic values and a score; the
  score is that of the first rule whose condition holds.
\<close>

definition both :: "(nat \<Rightarrow> nat \<Rightarrow> bool) \<Rightarrow> nat option \<times> nat option \<Rightarrow> bool" where
  "both P r = (case r of (Some S, Some D) \<Rightarrow> P S D | _ \<Rightarrow> False)"

definition bp_rules :: "((nat option \<times> nat option \<Rightarrow> bool) \<times> int) list" where
  "bp_rules =
     [(\<lambda>(S, D). S = None \<or> D = None, 0),
      (both (\<lambda>S D. S < 120 \<and> D < 80), 0),
      (both (\<lambda>S D. 120 \<le> S \<and> S \<le> 129 \<and> D < 80), 1),
      (both (\<lambda>S D. (130 \<le> S \<and> S \<le> 139) \<or> (80 \<le> D \<and> D \<le> 89)), 2),
      (both (\<lambda>S D. 140 \<le> S \<or> 90 \<le> D), 3),
      (\<lambda>r. True, 0)]"

fun first_applicable :: "(('a \<Rightarrow> bool) \<times> int) list \<Rightarrow> 'a \<Rightarrow> int option" where
  "first_applicable [] x = None"
| "first_applicable ((c, v) # rules) x = (if c x then Some v else first_applicable rules x)"

text \<open>A field holds a valid number when its value is a number and not \<open>NaN\<close>.\<close>

definition is_numeric :: "jsval \<Rightarrow> bool" where
  "is_numeric v = (case v of JNumber n \<Rightarrow> n \<noteq> NaN | _ \<Rightarrow> False)"

text \<open>A blood-pressure value parses when it is a string that contains a reading.\<close>

definition bp_parses :: "jsval \<Rightarrow> bool" where
  "bp_parses v = (case v of JString s \<Rightarrow> contains_reading s | _ \<Rightarrow> False)"

text \<open>A patient record with the given identifier and the three fields the analysis reads.\<close>

definition patient :: "string \<Rightarrow> jsval \<Rightarrow> jsval \<Rightarrow> jsval \<Rightarrow> Patient" where
  "patient pid bp temp a =
     \<lparr>patient_id = pid, name = [], age = a, gender = GenderF, blood_pressure = bp,
      temperature = temp, visit_date = [], diagnosis = [], medications = []\<rparr>"

text \<open>
  The guard of the source on a number field,
  \<^verbatim>\<open>x === null || x === undefined || isNaN(x)\<close>: the value is missing or converts
  to \<open>NaN\<close>.
\<close>

definition missing_or_nan :: "jsval \<Rightarrow> bool" where
  "missing_or_nan v = (v = JNull \<or> v = JUndefined \<or> isNaN v)"

text \<open>The fever test of \<^verbatim>\<open>checkRisk\<close>, as a function of the temperature field.\<close>

definition fever_of :: "jsval \<Rightarrow> bool" where
  "fever_of t = (js_ge (to_number t) (Finite double_99_6) \<and> t \<noteq> JNull \<and> t \<noteq> JUndefined \<and> \<not> isNaN t)"

text \<open>
  What the analysis says of one record, read through \<^verbatim>\<open>checkRisk\<close>: a flag of the
  verdict, false when there is no verdict.
\<close>

definition verdict :: "(PatientRiskAnalysis \<Rightarrow> bool) \<Rightarrow> Patient \<Rightarrow> bool" where
  "verdict flag p = (case checkRisk p of Inl e \<Rightarrow> False | Inr a \<Rightarrow> flag a)"

text \<open>
  A batch of five records: the scenarios of the specification, and a record that shares
  its identifier with an earlier one.
\<close>

definition scenario :: "Patient list" where
  "scenario =
     [patient ''p1'' (JString ''118/76'') (JNumber (Finite 98.2)) (JNumber (Finite 30)),
      patient ''p2'' (JString ''150/95'') (JNumber (Finite 102.3)) (JNumber (Finite 70)),
      patient ''p3'' (JString []) JNull (JNumber NaN),
      patient ''p4'' (JString ''130/89'') (JNumber (Finite double_99_6)) (JNumber (Finite 65)),
      patient ''p2'' (JString ''150/95/100'') (JNumber (Finite 98.2)) JUndefined]"

section \<open>The pattern matches the leftmost reading\<close>

text \<open>
  Backtracking never helps this pattern: a group that gives a digit back leaves a digit
  where \<^verbatim>\<open>/\<close> must stand. So the match at a position is \<open>reading_prefix\<close>, and the
  search returns \<open>first_reading\<close>.
\<close>

lemma try_lengths_nil:
  "try_lengths (\<lambda>t. Some ([], [])) s n = (if n = 0 then None else Some (take n s, [take n s]))"
  by (cases n) simp_all

lemma atom_ok_Digit: "atom_ok Digit = is_digit"
  by (rule ext) simp

lemma take_run: "take (length (takeWhile P s)) s = takeWhile P s"
  by (induction s) simp_all

lemma drop_run: "drop (length (takeWhile P s)) s = dropWhile P s"
  by (induction s) simp_all

lemma rx_match_Single:
  "rx_match (Single a # is) s =
     (case s of [] \<Rightarrow> None
      | c # cs \<Rightarrow> if atom_ok a c
                 then (case rx_match is cs of Some (w, gs) \<Rightarrow> Some (c # w, gs) | None \<Rightarrow> None)
                 else None)"
  by simp

lemma rx_match_Group:
  "rx_match (GroupPlus a # is) s = try_lengths (rx_match is) s (length (takeWhile (atom_ok a) s))"
  by simp

lemma rx_group_last: "rx_match [GroupPlus Digit] s =
   (if takeWhile is_digit s = [] then None else Some (takeWhile is_digit s, [takeWhile is_digit s]))"
  by (simp add: try_lengths_nil atom_ok_Digit take_run)

lemma slash_not_digit: "\<not> is_digit (CHR ''/'')"
  by (simp add: is_digit_def)

lemma rx_tail: "rx_match [Single (Lit (CHR ''/'')), GroupPlus Digit] t =
  (case t of [] \<Rightarrow> None | c # cs \<Rightarrow>
     if c = CHR ''/'' \<and> takeWhile is_digit cs \<noteq> [] then Some (c # takeWhile is_digit cs, [takeWhile is_digit cs]) else None)"
  by (simp del: rx_match.simps add: rx_match_Single rx_group_last split: list.splits)

lemma rx_tail_digit: "n < length (takeWhile is_digit s) \<Longrightarrow> 
   rx_match [Single (Lit (CHR ''/'')), GroupPlus Digit] (drop n s) = None"
proof -
  assume n: "n < length (takeWhile is_digit s)"
  then have "n < length s" using length_takeWhile_le[of is_digit s] by simp
  then have d: "drop n s = s ! n # drop (Suc n) s" by (simp add: Cons_nth_drop_Suc)
  have "is_digit (takeWhile is_digit s ! n)" using n nth_mem set_takeWhileD by metis
  then have "is_digit (s ! n)" using n by (simp add: takeWhile_nth)
  then have "s ! n \<noteq> CHR ''/''" using slash_not_digit by auto
  then show ?thesis unfolding rx_tail d by simp
qed

lemma try_lengths_short: "n < length (takeWhile is_digit s) \<Longrightarrow>
   try_lengths (rx_match [Single (Lit (CHR ''/'')), GroupPlus Digit]) s n = None"
proof (induction n)
  case 0 show ?case by simp
next
  case (Suc n)
  then show ?case using rx_tail_digit[of "Suc n" s] by (simp del: rx_match.simps)
qed

lemma try_lengths_run:
  "try_lengths (rx_match [Single (Lit (CHR ''/'')), GroupPlus Digit]) s (length (takeWhile is_digit s)) =
     (if takeWhile is_digit s = [] then None
      else case rx_match [Single (Lit (CHR ''/'')), GroupPlus Digit] (dropWhile is_digit s) of
        Some (w, gs) \<Rightarrow> Some (takeWhile is_digit s @ w, takeWhile is_digit s # gs)
      | None \<Rightarrow> None)"
proof (cases "length (takeWhile is_digit s)")
  case 0
  then show ?thesis by simp
next
  case (Suc n)
  have ne: "takeWhile is_digit s \<noteq> []" using Suc by auto
  have short: "try_lengths (rx_match [Single (Lit (CHR ''/'')), GroupPlus Digit]) s n = None"
    using try_lengths_short[of n s] Suc by simp
  have t: "take (Suc n) s = takeWhile is_digit s" using take_run[of is_digit s] Suc by simp
  have d: "drop (Suc n) s = dropWhile is_digit s" using drop_run[of is_digit s] Suc by simp
  show ?thesis unfolding Suc try_lengths.simps short t d using ne
    by (simp del: rx_match.simps split: option.splits)
qed

lemma rx_match_bp: "rx_match bp_pattern s =
   map_option (\<lambda>(g1, g2). (g1 @ CHR ''/'' # g2, [g1, g2])) (reading_prefix s)"
proof -
  have "rx_match bp_pattern s =
    try_lengths (rx_match [Single (Lit (CHR ''/'')), GroupPlus Digit]) s (length (takeWhile is_digit s))"
    unfolding bp_pattern_def rx_match_Group atom_ok_Digit ..
  also have "\<dots> = map_option (\<lambda>(g1, g2). (g1 @ CHR ''/'' # g2, [g1, g2])) (reading_prefix s)"
    unfolding try_lengths_run rx_tail
    by (cases "dropWhile is_digit s")
       (simp_all add: reading_prefix_def Let_def del: dropWhile_eq_Nil_conv)
  finally show ?thesis .
qed

lemma reading_prefix_Nil: "reading_prefix [] = None"
  by (simp add: reading_prefix_def)

lemma rx_search_bp: "rx_search bp_pattern s =
   map_option (\<lambda>(g1, g2). (g1 @ CHR ''/'' # g2, [g1, g2])) (first_reading s)"
proof (induction s)
  case Nil
  show ?case unfolding rx_search.simps rx_match_bp by (simp add: reading_prefix_Nil)
next
  case (Cons c cs)
  show ?case unfolding rx_search.simps first_reading.simps rx_match_bp Cons.IH
    by (cases "reading_prefix (c # cs)") simp_all
qed

lemma takeWhile_digits: "list_all is_digit g \<Longrightarrow> takeWhile is_digit (g @ CHR ''/'' # t) = g"
  by (induction g) (simp_all add: slash_not_digit)

lemma dropWhile_digits: "list_all is_digit g \<Longrightarrow> dropWhile is_digit (g @ CHR ''/'' # t) = CHR ''/'' # t"
  by (induction g) (simp_all add: slash_not_digit)

lemma dropWhile_head: "case dropWhile P xs of [] \<Rightarrow> True | c # _ \<Rightarrow> \<not> P c"
  by (induction xs) simp_all

lemma reading_prefix_Some:
  assumes "reading_prefix s = Some (g1, g2)"
  shows "\<exists>post. reading_at s [] g1 g2 post \<and> (case post of [] \<Rightarrow> True | c # _ \<Rightarrow> \<not> is_digit c)"
proof -
  obtain c cs where d: "dropWhile is_digit s = c # cs"
    using assms by (cases "dropWhile is_digit s") (simp_all add: reading_prefix_def)
  from assms d have g1: "g1 = takeWhile is_digit s" and ne1: "g1 \<noteq> []" and c: "c = CHR ''/''"
    and g2: "g2 = takeWhile is_digit cs" and ne2: "g2 \<noteq> []"
    by (auto simp add: reading_prefix_def Let_def split: if_splits)
  have "s = takeWhile is_digit s @ dropWhile is_digit s" by simp
  then have s: "s = g1 @ CHR ''/'' # g2 @ dropWhile is_digit cs"
    using d g1 c g2 by simp
  have d1: "digits g1" using g1 ne1 by (auto simp add: digits_def list_all_iff dest: set_takeWhileD)
  have d2: "digits g2" using g2 ne2 by (auto simp add: digits_def list_all_iff dest: set_takeWhileD)
  have "case dropWhile is_digit cs of [] \<Rightarrow> True | c # _ \<Rightarrow> \<not> is_digit c"
    by (rule dropWhile_head)
  then show ?thesis using s d1 d2 by (auto simp add: reading_at_def)
qed

lemma reading_prefix_complete:
  assumes "reading_at s [] g1 g2 post"
  shows "reading_prefix s = Some (g1, takeWhile is_digit (g2 @ post))"
proof -
  from assms have s: "s = g1 @ CHR ''/'' # g2 @ post" and d1: "digits g1" and d2: "digits g2"
    by (simp_all add: reading_at_def)
  have t: "takeWhile is_digit s = g1" unfolding s using d1 by (simp add: takeWhile_digits digits_def)
  have d: "dropWhile is_digit s = CHR ''/'' # g2 @ post" unfolding s using d1 by (simp add: dropWhile_digits digits_def)
  obtain x xs where g2: "g2 = x # xs" and x: "is_digit x" using d2 by (cases g2) (simp_all add: digits_def)
  have "takeWhile is_digit (g2 @ post) \<noteq> []" unfolding g2 using x by simp
  then show ?thesis using t d d1 by (simp add: reading_prefix_def digits_def)
qed

lemma first_reading_Some:
  "first_reading s = Some (g1, g2) \<Longrightarrow> \<exists>pre post. leftmost_reading s pre g1 g2 post"
proof (induction s)
  case Nil
  then show ?case by simp
next
  case (Cons c cs)
  show ?case
  proof (cases "reading_prefix (c # cs)")
    case (Some r)
    with Cons.prems have "reading_prefix (c # cs) = Some (g1, g2)" by simp
    from reading_prefix_Some[OF this] obtain post where
      "reading_at (c # cs) [] g1 g2 post" "case post of [] \<Rightarrow> True | c # _ \<Rightarrow> \<not> is_digit c"
      by blast
    then have "leftmost_reading (c # cs) [] g1 g2 post"
      by (simp add: leftmost_reading_def)
    then show ?thesis by blast
  next
    case None
    with Cons.prems have "first_reading cs = Some (g1, g2)" by simp
    from Cons.IH[OF this] obtain pre post where l: "leftmost_reading cs pre g1 g2 post" by blast
    have r: "reading_at (c # cs) (c # pre) g1 g2 post"
      using l by (simp add: leftmost_reading_def reading_at_def)
    have "length (c # pre) \<le> length pre'" if h: "reading_at (c # cs) pre' g1' g2' post'"
      for pre' g1' g2' post'
    proof (cases pre')
      case Nil
      with h reading_prefix_complete[of "c # cs" g1' g2' post'] None show ?thesis by simp
    next
      case (Cons x xs)
      with h have "reading_at cs xs g1' g2' post'" by (simp add: reading_at_def)
      with l have "length pre \<le> length xs" by (auto simp add: leftmost_reading_def)
      then show ?thesis using Cons by simp
    qed
    with r l show ?thesis unfolding leftmost_reading_def by blast
  qed
qed

lemma first_reading_None: "first_reading s = None \<longleftrightarrow> \<not> contains_reading s"
proof
  assume n: "first_reading s = None"
  have "first_reading s \<noteq> None" if "reading_at s pre g1 g2 post" for pre g1 g2 post
    using that
  proof (induction pre arbitrary: s)
    case Nil
    from reading_prefix_complete[OF Nil] show ?case by (cases s) (simp_all add: reading_prefix_Nil)
  next
    case (Cons x xs)
    then obtain cs where s: "s = x # cs" and "reading_at cs xs g1 g2 post"
      by (auto simp add: reading_at_def)
    with Cons.IH show ?case by (simp split: option.splits)
  qed
  with n show "\<not> contains_reading s" by (auto simp add: contains_reading_def)
next
  assume c: "\<not> contains_reading s"
  show "first_reading s = None"
  proof (rule ccontr)
    assume "first_reading s \<noteq> None"
    then obtain g1 g2 where "first_reading s = Some (g1, g2)" by auto
    from first_reading_Some[OF this] c show False
      by (auto simp add: leftmost_reading_def contains_reading_def)
  qed
qed

section \<open>Rounding a natural number\<close>

text \<open>
  A natural number below \<open>2 ^ 53\<close> is a double and rounds to itself; from \<open>2 ^ 53\<close>
  on the result is a natural number of at least \<open>2 ^ 53\<close> or infinity, and from
  \<open>2 ^ 1024\<close> on it is infinity.
\<close>

declare bit_length.simps [simp del]

lemma bit_length_0: "bit_length 0 = 0"
  by (simp add: bit_length.simps)

lemma bit_length_pos: "0 < n \<Longrightarrow> bit_length n = 1 + bit_length (n div 2)"
  by (subst bit_length.simps) simp

lemma bit_length_upper: "n < 2 ^ bit_length n"
proof (induction n rule: bit_length.induct)
  case (1 n)
  show ?case
  proof (cases "n = 0")
    case True
    then show ?thesis by (simp add: bit_length_0)
  next
    case False
    with 1 have "n div 2 < 2 ^ bit_length (n div 2)" by simp
    then have "n < 2 * 2 ^ bit_length (n div 2)" by linarith
    then show ?thesis using False by (simp add: bit_length_pos)
  qed
qed

lemma bit_length_lower: "0 < n \<Longrightarrow> 2 ^ (bit_length n - 1) \<le> n"
proof (induction n rule: bit_length.induct)
  case (1 n)
  show ?case
  proof (cases "n div 2 = 0")
    case True
    with 1(2) have "n = 1" by (simp add: div_eq_0_iff) 
    then show ?thesis by (simp add: bit_length_pos bit_length_0)
  next
    case False
    then have p: "0 < n div 2" by simp
    with 1 have "2 ^ (bit_length (n div 2) - 1) \<le> n div 2" by simp
    then have "2 * 2 ^ (bit_length (n div 2) - 1) \<le> n" by linarith
    moreover have "0 < bit_length (n div 2)" using p by (simp add: bit_length_pos)
    ultimately show ?thesis using 1(2)
      by (simp add: bit_length_pos power_eq_if)
  qed
qed

lemma bit_length_le: "n < 2 ^ k \<Longrightarrow> bit_length n \<le> k"
proof (rule ccontr)
  assume n: "n < 2 ^ k" and "\<not> bit_length n \<le> k"
  then have k: "k \<le> bit_length n - 1" and p: "0 < n" by (auto simp add: bit_length_0 intro: Nat.gr0I)
  have "(2::nat) ^ k \<le> 2 ^ (bit_length n - 1)" using k by (intro power_increasing) simp_all
  also have "\<dots> \<le> n" using bit_length_lower[OF p] .
  finally show False using n by simp
qed

lemma bit_length_gt: "2 ^ k \<le> n \<Longrightarrow> k < bit_length n"
proof (rule ccontr)
  assume n: "2 ^ k \<le> n" and "\<not> k < bit_length n"
  then have "(2::nat) ^ bit_length n \<le> 2 ^ k" by (simp add: power_increasing)
  with bit_length_upper[of n] n show False by simp
qed

lemma bit_length_1: "bit_length (Suc 0) = Suc 0"
  by (simp add: bit_length_pos bit_length_0)

lemma floor_log2_nat: "0 < n \<Longrightarrow> floor_log2 n 1 = int (bit_length n) - 1"
proof -
  assume p: "0 < n"
  then have "0 < bit_length n" by (simp add: bit_length_pos)
  then have d: "nat (int (bit_length n) - int (Suc 0)) = bit_length n - 1" by simp
  have l: "Suc 0 \<le> bit_length n" using \<open>0 < bit_length n\<close> by simp
  show ?thesis using bit_length_lower[OF p]
    unfolding floor_log2_def Let_def One_nat_def bit_length_1 d
    using l p by simp
qed

lemma round_half_even_1: "round_half_even n (Suc 0) = n"
  by (simp add: round_half_even_def)

lemma round_half_even_ge: "num div den \<le> round_half_even num den"
  by (simp add: round_half_even_def Let_def)

lemma double_of_nat_exact: "n < 2 ^ 53 \<Longrightarrow> double_of_nat n = from_nat n"
proof (cases "n = 0")
  case True
  then show ?thesis by (simp add: double_of_nat_def round_double_def from_nat_def)
next
  case False
  assume n: "n < 2 ^ 53"
  from False have p: "0 < n" by simp
  have b: "bit_length n \<le> 53" using n by (rule bit_length_le)
  have e: "max (floor_log2 n 1) (- 1022) = int (bit_length n) - 1"
    using floor_log2_nat[OF p] by simp
  have le: "int (bit_length n) - 1 \<le> 52" using b by simp
  show ?thesis
    unfolding double_of_nat_def round_double_def Let_def e
    using False le by (simp add: round_half_even_1 from_nat_def)
qed

lemma double_of_nat_large:
  assumes "2 ^ 53 \<le> n"
  shows "double_of_nat n = PosInf \<or> (\<exists>m. 2 ^ 53 \<le> m \<and> double_of_nat n = from_nat m)"
proof -
  from assms have p: "0 < n" by (simp add: order.strict_trans2[of 0 "2 ^ 53"])
  have b: "53 < bit_length n" using assms by (rule bit_length_gt)
  define k where "k = bit_length n - 53"
  have bk: "bit_length n = k + 53" using b by (simp add: k_def)
  have e: "max (floor_log2 n 1) (- 1022) = int k + 52"
    using floor_log2_nat[OF p] bk by simp
  have k0: "0 < k" using b by (simp add: k_def)
  define m where "m = round_half_even n (2 ^ k) * 2 ^ k"
  have "2 ^ (bit_length n - 1) \<le> n" using bit_length_lower[OF p] .
  then have "2 ^ 52 * 2 ^ k \<le> n" by (simp add: bk power_add mult.commute)
  then have "2 ^ 52 \<le> n div 2 ^ k" by (simp add: less_eq_div_iff_mult_less_eq)
  with round_half_even_ge[of n "2 ^ k"] have "2 ^ 52 \<le> round_half_even n (2 ^ k)" by simp
  then have "2 ^ 52 * 2 ^ k \<le> m" by (simp add: m_def)
  moreover have "(2::nat) ^ 53 \<le> 2 ^ 52 * 2 ^ k" using k0
    by (cases k) simp_all
  ultimately have m53: "2 ^ 53 \<le> m" by simp
  have "double_of_nat n = (if 2 ^ 1024 \<le> m then PosInf else Finite (real m))"
    unfolding double_of_nat_def round_double_def Let_def e m_def
    using p k0 by simp
  with m53 show ?thesis by (auto simp add: from_nat_def)
qed

lemma double_of_nat_overflow:
  assumes "2 ^ 1024 \<le> n"
  shows "double_of_nat n = PosInf"
proof -
  from assms have p: "0 < n" by (simp add: order.strict_trans2[of 0 "2 ^ 1024"])
  have b: "1024 < bit_length n" using assms by (rule bit_length_gt)
  define k where "k = bit_length n - 53"
  have bk: "bit_length n = k + 53" using b by (simp add: k_def)
  have e: "max (floor_log2 n 1) (- 1022) = int k + 52"
    using floor_log2_nat[OF p] bk by simp
  have k0: "972 \<le> k" using b by (simp add: k_def)
  define m where "m = round_half_even n (2 ^ k) * 2 ^ k"
  have "2 ^ (bit_length n - 1) \<le> n" using bit_length_lower[OF p] .
  then have "2 ^ 52 * 2 ^ k \<le> n" by (simp add: bk power_add mult.commute)
  then have "2 ^ 52 \<le> n div 2 ^ k" by (simp add: less_eq_div_iff_mult_less_eq)
  with round_half_even_ge[of n "2 ^ k"] have "2 ^ 52 \<le> round_half_even n (2 ^ k)" by simp
  then have "2 ^ 52 * 2 ^ k \<le> m" by (simp add: m_def)
  moreover have "(2::nat) ^ (52 + 972) \<le> 2 ^ (52 + k)" using k0 by (intro power_increasing) simp_all
  ultimately have "2 ^ 1024 \<le> m" by (simp add: power_add)
  moreover have "double_of_nat n = (if 2 ^ 1024 \<le> m then PosInf else Finite (real m))"
    unfolding double_of_nat_def round_double_def Let_def e m_def
    using p k0 by simp
  ultimately show ?thesis by simp
qed

lemma double_of_nat_integer: "double_of_nat n = PosInf \<or> (\<exists>m. double_of_nat n = from_nat m)"
  using double_of_nat_exact[of n] double_of_nat_large[of n] by (cases "n < 2 ^ 53") auto

section \<open>What the parser returns\<close>

text \<open>
  On a group of digits \<^verbatim>\<open>parseInt\<close> returns the number the digits spell, rounded to a
  double, so \<^verbatim>\<open>parseBloodPressure\<close> returns the first reading of a string with both
  numbers rounded. A comparison of a rounded natural number with an integer below
  \<open>2 ^ 53\<close> is the comparison of the natural number itself.
\<close>

lemma digit_of_digit: "is_digit c \<Longrightarrow> digit_of c = Some (of_char c - 48) \<and> of_char c - 48 < (10::nat)"
  by (auto simp add: is_digit_def digit_of_def)

lemma digit_not_white: "is_digit c \<Longrightarrow> \<not> is_white c"
  by (auto simp add: is_digit_def is_white_def)

lemma digit_not_sign: "is_digit c \<Longrightarrow> c \<noteq> CHR ''-'' \<and> c \<noteq> CHR ''+'' \<and> c \<noteq> CHR ''x'' \<and> c \<noteq> CHR ''X''"
  by (auto simp add: is_digit_def)

lemma in_radix_digit: "is_digit c \<Longrightarrow> in_radix 10 c"
  by (simp add: in_radix_def digit_of_digit)

lemma radix_value_digits:
  "list_all is_digit ds \<Longrightarrow>
   foldl (\<lambda>n c. 10 * n + (case digit_of c of None \<Rightarrow> 0 | Some d \<Rightarrow> d)) a ds
     = foldl (\<lambda>n c. 10 * n + (of_char c - 48)) a ds"
  by (induction ds arbitrary: a) (simp_all add: digit_of_digit)

lemma not_hex_prefix: "list_all is_digit ds \<Longrightarrow> take 2 ds \<noteq> ''0x'' \<and> take 2 ds \<noteq> ''0X''"
proof (cases ds)
  case Nil
  then show ?thesis by simp
next
  case (Cons a as)
  assume d: "list_all is_digit ds"
  show ?thesis
  proof (cases as)
    case Nil
    with Cons show ?thesis by simp
  next
    case (Cons b bs)
    with \<open>ds = a # as\<close> d have "is_digit b" by simp
    then show ?thesis using digit_not_sign[of b] Cons \<open>ds = a # as\<close> by auto
  qed
qed

lemma parseInt_digits:
  assumes "digits ds"
  shows "parseInt ds = double_of_nat (dec_value ds)"
proof -
  from assms obtain c cs where ds: "ds = c # cs" and c: "is_digit c" and all: "list_all is_digit ds"
    by (cases ds) (simp_all add: digits_def)
  have w: "dropWhile is_white ds = ds" unfolding ds using digit_not_white[OF c] by simp
  have z: "takeWhile (in_radix 10) ds = ds"
    using all by (simp add: takeWhile_eq_all_conv list_all_iff in_radix_digit)
  have v: "radix_value 10 ds = dec_value ds"
    unfolding radix_value_def dec_value_def using all by (rule radix_value_digits)
  have h: "take 2 ds \<noteq> ''0x''" "take 2 ds \<noteq> ''0X''" using not_hex_prefix[OF all] by simp_all
  have s1: "(case ds of [] \<Rightarrow> [] | c # cs \<Rightarrow> if c = CHR ''-'' \<or> c = CHR ''+'' then cs else ds) = ds"
    unfolding ds using digit_not_sign[OF c] by simp
  have neg: "(case ds of [] \<Rightarrow> False | c # _ \<Rightarrow> c = CHR ''-'') = False"
    unfolding ds using digit_not_sign[OF c] by simp
  have ne: "ds \<noteq> []" using ds by simp
  show ?thesis
    unfolding parseInt_def w Let_def s1 neg using h
    by (simp add: z v ne)
qed

lemma first_reading_digits:
  "first_reading s = Some (g1, g2) \<Longrightarrow> digits g1 \<and> digits g2"
  using first_reading_Some[of s g1 g2] by (auto simp add: leftmost_reading_def reading_at_def)

lemma parseBloodPressure_eq:
  "parseBloodPressure v =
     Inr (case v of
            JString s \<Rightarrow>
              (case first_reading s of
                 None \<Rightarrow> \<lparr>systolic = None, diastolic = None\<rparr>
               | Some (g1, g2) \<Rightarrow>
                   \<lparr>systolic = Some (double_of_nat (dec_value g1)),
                    diastolic = Some (double_of_nat (dec_value g2))\<rparr>)
          | _ \<Rightarrow> \<lparr>systolic = None, diastolic = None\<rparr>)"
proof (cases v)
  case (JString s)
  show ?thesis
  proof (cases "first_reading s")
    case None
    then show ?thesis unfolding JString
      by (simp add: parseBloodPressure_def js_match_def rx_search_bp)
  next
    case (Some r)
    obtain g1 g2 where r: "r = (g1, g2)" by (cases r)
    have ne: "s \<noteq> []" using Some by auto
    from first_reading_digits[of s g1 g2] Some r have "digits g1" "digits g2" by simp_all
    then have "parseInt g1 = double_of_nat (dec_value g1)" "parseInt g2 = double_of_nat (dec_value g2)"
      by (simp_all add: parseInt_digits)
    then show ?thesis unfolding JString using Some r ne
      by (simp add: parseBloodPressure_def js_match_def rx_search_bp js_index_def)
  qed
qed (simp_all add: parseBloodPressure_def)

lemma js_cmp_double_of_nat:
  assumes k: "numeral k < (2::nat) ^ 53"
  shows "js_lt (double_of_nat n) (Finite (numeral k)) = (n < numeral k)
       \<and> js_le (double_of_nat n) (Finite (numeral k)) = (n \<le> numeral k)
       \<and> js_ge (double_of_nat n) (Finite (numeral k)) = (numeral k \<le> n)
       \<and> js_gt (double_of_nat n) (Finite (numeral k)) = (numeral k < n)"
proof (cases "n < 2 ^ 53")
  case True
  then have e: "double_of_nat n = Finite (real n)"
    by (simp add: double_of_nat_exact from_nat_def)
  show ?thesis unfolding e by (auto simp add: js_le_def js_ge_def js_gt_def)
next
  case False
  then have n: "2 ^ 53 \<le> n" by simp
  with k have kn: "numeral k < n" by (rule order.strict_trans2)
  from double_of_nat_large[OF n] consider "double_of_nat n = PosInf"
    | m where "2 ^ 53 \<le> m" "double_of_nat n = Finite (real m)"
    by (auto simp add: from_nat_def)
  then show ?thesis
  proof cases
    case 1
    show ?thesis unfolding 1 using kn by (simp add: js_le_def js_ge_def js_gt_def)
  next
    case 2
    from k 2(1) have "(numeral k :: nat) < m" by (rule order.strict_trans2)
    then have "(numeral k :: real) < real m" by (metis of_nat_less_iff of_nat_numeral)
    then show ?thesis unfolding 2(2) using kn by (simp add: js_le_def js_ge_def js_gt_def)
  qed
qed

lemmas js_cmp_double =
  js_cmp_double_of_nat[THEN conjunct1]
  js_cmp_double_of_nat[THEN conjunct2, THEN conjunct1]
  js_cmp_double_of_nat[THEN conjunct2, THEN conjunct2, THEN conjunct1]
  js_cmp_double_of_nat[THEN conjunct2, THEN conjunct2, THEN conjunct2]

lemma score_policy:
  "first_applicable bp_rules (Some S, Some D)
     = Some (bloodPressureScore (Some (double_of_nat S)) (Some (double_of_nat D)))"
  by (simp add: bp_rules_def both_def bloodPressureScore_def js_cmp_double)

lemma return_double:
  "bloodPressureReturn (Some (double_of_nat S)) (Some (double_of_nat D))
     \<in> {ReturnNormal, ReturnElevated, ReturnStage1, ReturnStage2}"
  unfolding bloodPressureReturn_def by (simp add: js_cmp_double)

section \<open>The blood-pressure score\<close>

lemmas bp_eval =
  calculateBloodPressureRisk_def parseBloodPressure_eq reading_prefix_def is_digit_def
  dec_value_def bloodPressureScore_def js_cmp_double

lemma js_cmp_from_nat:
  "js_lt (from_nat n) (Finite (numeral k)) = (n < numeral k)"
  "js_le (from_nat n) (Finite (numeral k)) = (n \<le> numeral k)"
  "js_ge (from_nat n) (Finite (numeral k)) = (numeral k \<le> n)"
  "js_gt (from_nat n) (Finite (numeral k)) = (numeral k < n)"
  by (auto simp add: from_nat_def js_le_def js_ge_def js_gt_def)

lemma score_policy_unparsed: "first_applicable bp_rules (None, None) = Some 0"
  by (simp add: bp_rules_def)

lemma eval_125_85:
  "calculateBloodPressureRisk (JString ''125/85'') = Inr 2"
  by (simp add: bp_eval)

lemma eval_110_85:
  "calculateBloodPressureRisk (JString ''110/85'') = Inr 2"
  by (simp add: bp_eval)

lemma from_nat_inject: "from_nat a = from_nat b \<longleftrightarrow> a = b"
  by (simp add: from_nat_def)

lemma double_of_nat_small:
  assumes "double_of_nat s = from_nat k" "k < 2 ^ 53"
  shows "s = k"
proof (cases "s < 2 ^ 53")
  case True
  with assms(1) show ?thesis by (simp add: double_of_nat_exact from_nat_inject)
next
  case False
  then have "2 ^ 53 \<le> s" by simp
  from double_of_nat_large[OF this] assms show ?thesis
    by (auto simp add: from_nat_def)
qed

lemma double_of_nat_numeral:
  "numeral k < (2::nat) ^ 53 \<Longrightarrow> double_of_nat (numeral k) = Finite (numeral k)"
  by (simp add: double_of_nat_exact from_nat_def)

lemma parse_135_78:
  "parseBloodPressure (JString ''135/78'')
     = Inr \<lparr>systolic = Some (from_nat 135), diastolic = Some (from_nat 78)\<rparr>"
  by (simp add: parseBloodPressure_eq reading_prefix_def is_digit_def dec_value_def
      double_of_nat_exact)

text \<open>
  C1. For every blood-pressure value, \<^verbatim>\<open>calculateBloodPressureRisk\<close> returns the score
  of the first applicable rule of the ordered policy \<open>bp_rules\<close>, read on the systolic
  and diastolic values the parsed reading spells, which are natural numbers or missing;
  the fields of the reading are these numbers as doubles, the numbers themselves below
  \<open>2 ^ 53\<close>. The diastolic clause of rule 4 comes before rule 5 and does not look at
  the systolic value: 125 over 85 scores 2, and so does the string \<^verbatim>\<open>110/85\<close>.
\<close>

theorem bp_risk_first_applicable_rule:
  "(\<exists>r S D score.
      parseBloodPressure v = Inr r
      \<and> systolic r = map_option double_of_nat S \<and> diastolic r = map_option double_of_nat D
      \<and> first_applicable bp_rules (S, D) = Some score
      \<and> calculateBloodPressureRisk v = Inr score)
   \<and> (\<forall>n. n < 2 ^ 53 \<longrightarrow> double_of_nat n = from_nat n)
   \<and> first_applicable bp_rules (Some 125, Some 85) = Some 2
   \<and> parseBloodPressure (JString ''125/85'') = Inr \<lparr>systolic = Some (from_nat 125), diastolic = Some (from_nat 85)\<rparr>
   \<and> calculateBloodPressureRisk (JString ''125/85'') = Inr 2
   \<and> calculateBloodPressureRisk (JString ''110/85'') = Inr 2"
proof -
  have general: "\<exists>r S D score.
      parseBloodPressure v = Inr r
      \<and> systolic r = map_option double_of_nat S \<and> diastolic r = map_option double_of_nat D
      \<and> first_applicable bp_rules (S, D) = Some score
      \<and> calculateBloodPressureRisk v = Inr score"
  proof (cases "\<exists>s g1 g2. v = JString s \<and> first_reading s = Some (g1, g2)")
    case True
    then obtain s g1 g2 where v: "v = JString s" and f: "first_reading s = Some (g1, g2)" by blast
    let ?r = "\<lparr>systolic = Some (double_of_nat (dec_value g1)),
               diastolic = Some (double_of_nat (dec_value g2))\<rparr>"
    have p: "parseBloodPressure v = Inr ?r"
      unfolding parseBloodPressure_eq v using f by simp
    have c: "calculateBloodPressureRisk v
        = Inr (bloodPressureScore (Some (double_of_nat (dec_value g1)))
                 (Some (double_of_nat (dec_value g2))))"
      unfolding calculateBloodPressureRisk_def p by simp
    show ?thesis
      using p c score_policy[of "dec_value g1" "dec_value g2"]
      by (intro exI[of _ ?r] exI[of _ "Some (dec_value g1)"] exI[of _ "Some (dec_value g2)"]
          exI[of _ "bloodPressureScore (Some (double_of_nat (dec_value g1)))
                      (Some (double_of_nat (dec_value g2)))"])
         simp
  next
    case False
    let ?r = "\<lparr>systolic = None, diastolic = None\<rparr>"
    have p: "parseBloodPressure v = Inr ?r"
      unfolding parseBloodPressure_eq using False
      by (cases v) (auto split: option.splits)
    have c: "calculateBloodPressureRisk v = Inr 0"
      unfolding calculateBloodPressureRisk_def p by (simp add: bloodPressureScore_def)
    show ?thesis
      using p c score_policy_unparsed
      by (intro exI[of _ ?r] exI[of _ None] exI[of _ None] exI[of _ 0]) simp
  qed
  have exact: "\<forall>n. n < 2 ^ 53 \<longrightarrow> double_of_nat n = from_nat n"
    by (simp add: double_of_nat_exact)
  have ex: "first_applicable bp_rules (Some 125, Some 85) = Some 2"
    by (simp add: bp_rules_def both_def)
  have parse: "parseBloodPressure (JString ''125/85'')
     = Inr \<lparr>systolic = Some (from_nat 125), diastolic = Some (from_nat 85)\<rparr>"
    by (simp add: parseBloodPressure_eq reading_prefix_def is_digit_def dec_value_def
        double_of_nat_exact)
  show ?thesis using general exact ex parse eval_125_85 eval_110_85 by blast
qed

theorem bp_risk_first_applicable_rule_witness:
  "calculateBloodPressureRisk (JString ''135/78'') = Inr 2
   \<and> first_applicable bp_rules (Some 135, Some 78) = Some 2"
proof -
  from bp_risk_first_applicable_rule[of "JString ''135/78''"]
  obtain r S D score where
    p: "parseBloodPressure (JString ''135/78'') = Inr r"
    and s: "systolic r = map_option double_of_nat S" and d: "diastolic r = map_option double_of_nat D"
    and f: "first_applicable bp_rules (S, D) = Some score"
    and c: "calculateBloodPressureRisk (JString ''135/78'') = Inr score"
    by blast
  from p have r: "r = \<lparr>systolic = Some (from_nat 135), diastolic = Some (from_nat 78)\<rparr>"
    unfolding parse_135_78 by simp
  from s r have S: "S = Some 135"
    by (cases S) (auto dest: double_of_nat_small[OF sym])
  from d r have D: "D = Some 78"
    by (cases D) (auto dest: double_of_nat_small[OF sym])
  have "first_applicable bp_rules (Some 135, Some 78) = Some 2"
    by (simp add: bp_rules_def both_def)
  with f c S D show ?thesis by simp
qed

section \<open>The field parser\<close>

lemma contains_reading_Nil: "\<not> contains_reading []"
  by (simp add: contains_reading_def reading_at_def)

lemma bp_parses_iff:
  "bp_parses v \<longleftrightarrow> (\<exists>s g1 g2. v = JString s \<and> first_reading s = Some (g1, g2))"
proof (cases v)
  case (JString s)
  have "contains_reading s \<longleftrightarrow> (\<exists>g1 g2. first_reading s = Some (g1, g2))"
    using first_reading_None[of s] by (cases "first_reading s") auto
  then show ?thesis unfolding JString by (simp add: bp_parses_def)
qed (simp_all add: bp_parses_def)

lemma parse_parses:
  assumes "bp_parses v"
  shows "\<exists>S D. parseBloodPressure v
           = Inr \<lparr>systolic = Some (double_of_nat S), diastolic = Some (double_of_nat D)\<rparr>"
proof -
  from assms obtain s g1 g2 where "v = JString s" "first_reading s = Some (g1, g2)"
    unfolding bp_parses_iff by blast
  then show ?thesis unfolding parseBloodPressure_eq by auto
qed

lemma parse_leftmost:
  assumes "bp_parses v"
  shows "\<exists>s pre g1 g2 post. v = JString s \<and> leftmost_reading s pre g1 g2 post
           \<and> parseBloodPressure v
               = Inr \<lparr>systolic = Some (double_of_nat (dec_value g1)),
                      diastolic = Some (double_of_nat (dec_value g2))\<rparr>"
proof -
  from assms obtain s g1 g2 where v: "v = JString s" and f: "first_reading s = Some (g1, g2)"
    unfolding bp_parses_iff by blast
  from first_reading_Some[OF f] obtain pre post where "leftmost_reading s pre g1 g2 post" by blast
  moreover have "parseBloodPressure v
      = Inr \<lparr>systolic = Some (double_of_nat (dec_value g1)),
             diastolic = Some (double_of_nat (dec_value g2))\<rparr>"
    unfolding parseBloodPressure_eq v using f by simp
  ultimately show ?thesis using v by blast
qed

lemma parse_unparsed:
  assumes "\<not> bp_parses v"
  shows "parseBloodPressure v = Inr \<lparr>systolic = None, diastolic = None\<rparr>"
proof (cases v)
  case (JString s)
  with assms have "first_reading s = None" by (simp add: bp_parses_def first_reading_None)
  then show ?thesis unfolding parseBloodPressure_eq JString by simp
qed (simp_all add: parseBloodPressure_eq)

lemma contains_reading_120_80: "contains_reading ''120/80''"
  unfolding contains_reading_def reading_at_def
  by (intro exI[of _ "[]"] exI[of _ "''120''"] exI[of _ "''80''"]) (simp add: digits_def is_digit_def)

lemma takeWhile_group:
  "list_all is_digit g \<Longrightarrow> (case post of [] \<Rightarrow> True | c # _ \<Rightarrow> \<not> is_digit c)
     \<Longrightarrow> takeWhile is_digit (g @ post) = g"
  by (induction g) (simp_all split: list.splits)

lemma leftmost_reading_first:
  "leftmost_reading s pre g1 g2 post \<Longrightarrow> first_reading s = Some (g1, g2)"
proof (induction pre arbitrary: s)
  case Nil
  then have r: "reading_at s [] g1 g2 post" and e: "case post of [] \<Rightarrow> True | c # _ \<Rightarrow> \<not> is_digit c"
    by (simp_all add: leftmost_reading_def)
  from r have "list_all is_digit g2" by (simp add: reading_at_def digits_def)
  from this e have "takeWhile is_digit (g2 @ post) = g2" by (rule takeWhile_group)
  with reading_prefix_complete[OF r] have "reading_prefix s = Some (g1, g2)" by simp
  then show ?case by (cases s) (simp_all add: reading_prefix_Nil)
next
  case (Cons x xs)
  then obtain cs where s: "s = x # cs" and r: "reading_at cs xs g1 g2 post"
    by (auto simp add: leftmost_reading_def reading_at_def)
  have n: "reading_prefix s = None"
  proof (rule ccontr)
    assume "reading_prefix s \<noteq> None"
    then obtain h1 h2 where "reading_prefix s = Some (h1, h2)" by auto
    from reading_prefix_Some[OF this] obtain q where "reading_at s [] h1 h2 q" by blast
    with Cons.prems have "length (x # xs) \<le> length ([]::string)"
      unfolding leftmost_reading_def by blast
    then show False by simp
  qed
  have "length xs \<le> length pre'" if "reading_at cs pre' h1 h2 q" for pre' h1 h2 q
  proof -
    from that have "reading_at s (x # pre') h1 h2 q" by (simp add: reading_at_def s)
    with Cons.prems have "length (x # xs) \<le> length (x # pre')"
      unfolding leftmost_reading_def by blast
    then show ?thesis by simp
  qed
  with r Cons.prems have "leftmost_reading cs xs g1 g2 post"
    unfolding leftmost_reading_def by blast
  from Cons.IH[OF this] n show ?case by (simp add: s)
qed

lemma dec_value_zeros:
  "foldl (\<lambda>n c. 10 * n + (of_char c - 48)) (a::nat) (replicate k (CHR ''0'')) = a * 10 ^ k"
  by (induction k arbitrary: a) simp_all

lemma dec_value_huge: "dec_value (CHR ''1'' # replicate 309 (CHR ''0'')) = 10 ^ 309"
  unfolding dec_value_def by (simp add: dec_value_zeros)

lemma first_reading_huge:
  "first_reading (CHR ''1'' # replicate 309 (CHR ''0'') @ ''/80'')
     = Some (CHR ''1'' # replicate 309 (CHR ''0''), ''80'')"
proof -
  have "digits (CHR ''1'' # replicate 309 (CHR ''0''))"
    by (simp add: digits_def is_digit_def list_all_iff)
  moreover have "digits ''80''" by (simp add: digits_def is_digit_def)
  ultimately have "leftmost_reading (CHR ''1'' # replicate 309 (CHR ''0'') @ ''/80'') []
      (CHR ''1'' # replicate 309 (CHR ''0'')) ''80'' []"
    by (simp add: leftmost_reading_def reading_at_def)
  then show ?thesis by (rule leftmost_reading_first)
qed

lemma double_of_huge: "double_of_nat (10 ^ 309) = PosInf"
  by (rule double_of_nat_overflow) simp

lemma double_of_80: "double_of_nat (dec_value ''80'') = Finite 80"
  by (simp add: dec_value_def double_of_nat_numeral)

text \<open>
  C2 as stated, with both fields integers on every match, fails on a systolic value of
  310 digits: the match succeeds and the field is infinity.
\<close>

theorem parseBloodPressure_not_integer_counterexample:
  "parseBloodPressure (JString (CHR ''1'' # replicate 309 (CHR ''0'') @ ''/80''))
     = Inr \<lparr>systolic = Some PosInf, diastolic = Some (Finite 80)\<rparr>"
  by (simp only: parseBloodPressure_eq jsval.simps first_reading_huge option.simps
      prod.simps dec_value_huge double_of_huge double_of_80)

text \<open>
  C2, as the code has it. \<^verbatim>\<open>parseBloodPressure\<close> matches the pattern digits,
  \<^verbatim>\<open>/\<close>, digits and never throws: on every value it returns a reading. When the value
  is a string that contains a reading, both fields are set, to the numbers the two groups
  of the leftmost reading spell, each rounded to a double: the integer itself below
  \<open>2 ^ 53\<close>, an integer of at least \<open>2 ^ 53\<close> or infinity from there on, infinity from
  \<open>2 ^ 1024\<close> on. On every other value (a string with no reading, the empty string, a
  value that is not a string) both fields are unset.
\<close>

theorem parseBloodPressure_never_fails:
  "(\<exists>r. parseBloodPressure v = Inr r
      \<and> (if bp_parses v
          then \<exists>s pre g1 g2 post.
                 v = JString s \<and> leftmost_reading s pre g1 g2 post
                 \<and> systolic r = Some (double_of_nat (dec_value g1))
                 \<and> diastolic r = Some (double_of_nat (dec_value g2))
          else systolic r = None \<and> diastolic r = None))
   \<and> \<not> bp_parses (JString [])
   \<and> (bp_parses v \<longleftrightarrow> (\<exists>s. v = JString s \<and> contains_reading s))
   \<and> (\<forall>n. n < 2 ^ 53 \<longrightarrow> double_of_nat n = from_nat n)
   \<and> (\<forall>n. 2 ^ 53 \<le> n \<longrightarrow>
         double_of_nat n = PosInf \<or> (\<exists>m. 2 ^ 53 \<le> m \<and> double_of_nat n = from_nat m))
   \<and> (\<forall>n. 2 ^ 1024 \<le> n \<longrightarrow> double_of_nat n = PosInf)"
proof -
  have a: "\<exists>r. parseBloodPressure v = Inr r
      \<and> (if bp_parses v
          then \<exists>s pre g1 g2 post.
                 v = JString s \<and> leftmost_reading s pre g1 g2 post
                 \<and> systolic r = Some (double_of_nat (dec_value g1))
                 \<and> diastolic r = Some (double_of_nat (dec_value g2))
          else systolic r = None \<and> diastolic r = None)"
  proof (cases "bp_parses v")
    case True
    from parse_leftmost[OF this] obtain s pre g1 g2 post where
      "v = JString s" "leftmost_reading s pre g1 g2 post"
      "parseBloodPressure v
         = Inr \<lparr>systolic = Some (double_of_nat (dec_value g1)),
                diastolic = Some (double_of_nat (dec_value g2))\<rparr>"
      by blast
    with True show ?thesis by auto
  next
    case False
    from parse_unparsed[OF this] False show ?thesis by simp
  qed
  have b: "\<not> bp_parses (JString [])" by (simp add: bp_parses_def contains_reading_Nil)
  have c: "bp_parses v \<longleftrightarrow> (\<exists>s. v = JString s \<and> contains_reading s)"
    by (cases v) (simp_all add: bp_parses_def)
  have d: "\<forall>n. n < 2 ^ 53 \<longrightarrow> double_of_nat n = from_nat n"
    by (simp add: double_of_nat_exact)
  have e: "\<forall>n. 2 ^ 53 \<le> n \<longrightarrow>
         double_of_nat n = PosInf \<or> (\<exists>m. 2 ^ 53 \<le> m \<and> double_of_nat n = from_nat m)"
    using double_of_nat_large by blast
  have f: "\<forall>n. 2 ^ 1024 \<le> n \<longrightarrow> double_of_nat n = PosInf"
    using double_of_nat_overflow by blast
  from a b c d e f show ?thesis by blast
qed

lemma first_reading_120_80: "first_reading ''120/80'' = Some (''120'', ''80'')"
  by (simp add: reading_prefix_def is_digit_def)

lemma dec_value_examples:
  "dec_value ''120'' = 120" "dec_value ''80'' = 80" "dec_value ''150'' = 150"
  "dec_value ''95'' = 95" "dec_value ''9007199254740993'' = 9007199254740993"
  by (simp_all add: dec_value_def)

theorem parseBloodPressure_never_fails_witness:
  "(\<exists>r. parseBloodPressure (JString ''120/80'') = Inr r
       \<and> systolic r = Some (from_nat 120) \<and> diastolic r = Some (from_nat 80))
   \<and> parseBloodPressure (JString ''N/A'') = Inr \<lparr>systolic = None, diastolic = None\<rparr>
   \<and> parseBloodPressure (JNumber (Finite 120)) = Inr \<lparr>systolic = None, diastolic = None\<rparr>
   \<and> double_of_nat 120 = from_nat 120"
proof -
  have y: "bp_parses (JString ''120/80'')" by (simp add: bp_parses_def contains_reading_120_80)
  have "first_reading ''N/A'' = None" by (simp add: reading_prefix_def is_digit_def)
  then have n: "\<not> bp_parses (JString ''N/A'')" by (simp add: bp_parses_iff)
  have m: "\<not> bp_parses (JNumber (Finite 120))" by (simp add: bp_parses_def)
  from parseBloodPressure_never_fails[of "JString ''120/80''"] y
  obtain r s pre g1 g2 post where
    r: "parseBloodPressure (JString ''120/80'') = Inr r"
    and s: "JString ''120/80'' = JString s" and l: "leftmost_reading s pre g1 g2 post"
    and v: "systolic r = Some (double_of_nat (dec_value g1))"
      "diastolic r = Some (double_of_nat (dec_value g2))"
    by auto
  from parseBloodPressure_never_fails[of "JString ''120/80''"]
  have x: "\<forall>n. n < 2 ^ 53 \<longrightarrow> double_of_nat n = from_nat n" by blast
  from s have s': "s = ''120/80''" by simp
  have "first_reading s = Some (g1, g2)" using l by (rule leftmost_reading_first)
  then have "Some (''120'', ''80'') = Some (g1, g2)" unfolding s' first_reading_120_80 .
  then have g: "g1 = ''120''" "g2 = ''80''" by simp_all
  have e: "double_of_nat 120 = from_nat 120" "double_of_nat 80 = from_nat 80"
    using x by simp_all
  from r v g e have 1: "\<exists>r. parseBloodPressure (JString ''120/80'') = Inr r
       \<and> systolic r = Some (from_nat 120) \<and> diastolic r = Some (from_nat 80)"
    by (simp add: dec_value_examples)
  from parseBloodPressure_never_fails[of "JString ''N/A''"] n
  have 2: "parseBloodPressure (JString ''N/A'') = Inr \<lparr>systolic = None, diastolic = None\<rparr>" by auto
  from parseBloodPressure_never_fails[of "JNumber (Finite 120)"] m
  have 3: "parseBloodPressure (JNumber (Finite 120)) = Inr \<lparr>systolic = None, diastolic = None\<rparr>" by auto
  from 1 2 3 e show ?thesis by blast
qed

section \<open>The fallback of the blood-pressure score\<close>

lemma return_value_score:
  "return_value (bloodPressureReturn s d) = bloodPressureScore s d"
  by (cases s; cases d) (simp_all add: bloodPressureReturn_def bloodPressureScore_def)

lemma return_from_nat:
  "bloodPressureReturn (Some (from_nat S)) (Some (from_nat D))
     \<in> {ReturnNormal, ReturnElevated, ReturnStage1, ReturnStage2}"
  unfolding bloodPressureReturn_def by (simp add: js_cmp_from_nat)

text \<open>
  C9. The last \<^verbatim>\<open>return 0\<close> of \<^verbatim>\<open>calculateBloodPressureRisk\<close> is never reached: on
  every value the function returns through one of the five earlier \<^verbatim>\<open>return\<close>
  statements, and on every pair of natural numbers, rounded to doubles or not, through one
  of the four range rules. The tests alone do not exclude it (a \<open>NaN\<close> systolic over 70
  falls through all of them); the parser does, since it never produces \<open>NaN\<close>.
\<close>

theorem bp_default_unreachable:
  "(\<exists>ret. calculateBloodPressureReturn v = Inr ret \<and> ret \<noteq> ReturnDefault
       \<and> calculateBloodPressureRisk v = Inr (return_value ret))
   \<and> bloodPressureReturn (Some (from_nat S)) (Some (from_nat D))
       \<in> {ReturnNormal, ReturnElevated, ReturnStage1, ReturnStage2}
   \<and> bloodPressureReturn (Some NaN) (Some (from_nat 70)) = ReturnDefault
   \<and> bloodPressureReturn (Some (double_of_nat S)) (Some (double_of_nat D))
       \<in> {ReturnNormal, ReturnElevated, ReturnStage1, ReturnStage2}"
proof -
  have a: "\<exists>ret. calculateBloodPressureReturn v = Inr ret \<and> ret \<noteq> ReturnDefault
       \<and> calculateBloodPressureRisk v = Inr (return_value ret)"
  proof (cases "bp_parses v")
    case True
    from parse_parses[OF this] obtain S D where
      p: "parseBloodPressure v
            = Inr \<lparr>systolic = Some (double_of_nat S), diastolic = Some (double_of_nat D)\<rparr>"
      by blast
    have "bloodPressureReturn (Some (double_of_nat S)) (Some (double_of_nat D)) \<noteq> ReturnDefault"
      using return_double[of S D] by auto
    then show ?thesis
      unfolding calculateBloodPressureReturn_def calculateBloodPressureRisk_def p
      by (simp add: return_value_score)
  next
    case False
    show ?thesis
      unfolding calculateBloodPressureReturn_def calculateBloodPressureRisk_def parse_unparsed[OF False]
      by (simp add: bloodPressureReturn_def bloodPressureScore_def)
  qed
  have c: "bloodPressureReturn (Some NaN) (Some (from_nat 70)) = ReturnDefault"
    by (simp add: bloodPressureReturn_def js_cmp_from_nat js_le_def js_ge_def)
  from a return_from_nat[of S D] c return_double[of S D] show ?thesis by blast
qed

theorem bp_default_unreachable_witness:
  "calculateBloodPressureReturn (JString ''150/95'') \<noteq> Inr ReturnDefault
   \<and> bloodPressureReturn (Some (from_nat 150)) (Some (from_nat 95)) \<noteq> ReturnDefault"
  using bp_default_unreachable[of "JString ''150/95''" 150 95] by auto

section \<open>A reading inside a longer string\<close>

lemma double_2_53_1: "double_of_nat 9007199254740993 = Finite 9007199254740992"
  by (simp add: double_of_nat_def round_double_def floor_log2_def round_half_even_def Let_def
      bit_length.simps)

lemma double_80: "double_of_nat 80 = Finite 80"
  by (simp add: double_of_nat_numeral)

text \<open>
  C10 as stated, with the integers of the leftmost reading returned, fails on the systolic
  value \<open>2 ^ 53 + 1\<close>: the field is the double \<open>2 ^ 53\<close>.
\<close>

theorem parse_rounds_counterexample:
  "parseBloodPressure (JString ''9007199254740993/80'')
     = Inr \<lparr>systolic = Some (Finite 9007199254740992), diastolic = Some (Finite 80)\<rparr>
   \<and> dec_value ''9007199254740993'' = 9007199254740993"
proof -
  have "first_reading ''9007199254740993/80'' = Some (''9007199254740993'', ''80'')"
    by (simp add: reading_prefix_def is_digit_def)
  then show ?thesis
    by (simp only: parseBloodPressure_eq jsval.simps option.simps prod.simps
        dec_value_examples double_2_53_1 double_80 simp_thms)
qed

section \<open>The data-quality check\<close>

lemmas num_eval =
  string_to_number_def trim_def is_white_def non_decimal_def signed_decimal_def
  unsigned_decimal_def is_digit_def exponent_part_def radix_value_def digit_of_def in_radix_def
  Let_def round_double_def floor_log2_def round_half_even_def bit_length.simps

lemma string_to_number_examples:
  "string_to_number [] = Finite 0"
  "string_to_number ''102.5'' = Finite 102.5"
  "string_to_number ''99.6'' = Finite double_99_6"
  "string_to_number ''TEMP_ERROR'' = NaN"
  "string_to_number '' 1e2 '' = Finite 100"
  "string_to_number ''0x66'' = Finite 102"
  by (simp_all add: num_eval double_99_6_def)

lemma is_numeric_not_missing: "is_numeric v \<Longrightarrow> \<not> missing_or_nan v"
  by (cases v) (simp_all add: is_numeric_def missing_or_nan_def isNaN_def)

lemma missing_or_nan_examples:
  "missing_or_nan JNull" "missing_or_nan JUndefined" "missing_or_nan (JNumber NaN)"
  "missing_or_nan (JString ''TEMP_ERROR'')" "missing_or_nan JObject"
  "missing_or_nan (JArray [JNumber (Finite 1), JNumber (Finite 2)])"
  by (simp_all add: missing_or_nan_def isNaN_def string_to_number_examples)

lemma hasDataQualityIssues_eq:
  "hasDataQualityIssues p
     = Inr (\<not> bp_parses (blood_pressure p) \<or> missing_or_nan (temperature p)
            \<or> missing_or_nan (age p))"
proof (cases "bp_parses (blood_pressure p)")
  case True
  from parse_parses[OF this] obtain S D where
    "parseBloodPressure (blood_pressure p)
       = Inr \<lparr>systolic = Some (double_of_nat S), diastolic = Some (double_of_nat D)\<rparr>" by blast
  then show ?thesis using True
    unfolding hasDataQualityIssues_def by (simp add: missing_or_nan_def)
next
  case False
  show ?thesis using False
    unfolding hasDataQualityIssues_def parse_unparsed[OF False] by simp
qed

text \<open>
  C3, as the code has it. \<^verbatim>\<open>hasDataQualityIssues\<close> is true when the blood pressure
  fails to parse into both a systolic and a diastolic value, or the temperature is
  \<^verbatim>\<open>null\<close>, \<^verbatim>\<open>undefined\<close> or converts to \<open>NaN\<close> (\<open>NaN\<close> itself, a text that is
  no number, an object), or the age is so; it is false whenever the blood pressure parses
  and temperature and age are numbers other than \<open>NaN\<close>, whatever their magnitude.
  Nothing is stated of a temperature or an age that is not a number and converts to one.
\<close>

theorem hasDataQualityIssues_validity_only:
  "\<exists>r b. parseBloodPressure (blood_pressure p) = Inr r
     \<and> hasDataQualityIssues p = Inr b
     \<and> ((systolic r = None \<or> diastolic r = None) \<longleftrightarrow> \<not> bp_parses (blood_pressure p))
     \<and> (systolic r = None \<or> diastolic r = None \<longrightarrow> b)
     \<and> (missing_or_nan (temperature p) \<longrightarrow> b)
     \<and> (missing_or_nan (age p) \<longrightarrow> b)
     \<and> (bp_parses (blood_pressure p) \<and> is_numeric (temperature p) \<and> is_numeric (age p)
          \<longrightarrow> \<not> b)"
proof (cases "bp_parses (blood_pressure p)")
  case True
  from parse_parses[OF this] obtain S D where
    r: "parseBloodPressure (blood_pressure p)
       = Inr \<lparr>systolic = Some (double_of_nat S), diastolic = Some (double_of_nat D)\<rparr>" by blast
  let ?b = "missing_or_nan (temperature p) \<or> missing_or_nan (age p)"
  have b: "hasDataQualityIssues p = Inr ?b" using True by (simp add: hasDataQualityIssues_eq)
  have v: "is_numeric (temperature p) \<and> is_numeric (age p) \<longrightarrow> \<not> ?b"
    using is_numeric_not_missing by blast
  show ?thesis
    by (rule exI[of _ "\<lparr>systolic = Some (double_of_nat S), diastolic = Some (double_of_nat D)\<rparr>"],
        rule exI[of _ ?b]) (use r b v True in simp)
next
  case False
  have r: "parseBloodPressure (blood_pressure p) = Inr \<lparr>systolic = None, diastolic = None\<rparr>"
    using False by (rule parse_unparsed)
  have b: "hasDataQualityIssues p = Inr True" using False by (simp add: hasDataQualityIssues_eq)
  show ?thesis
    by (rule exI[of _ "\<lparr>systolic = None, diastolic = None\<rparr>"], rule exI[of _ True])
       (use r b False in simp)
qed

lemma bp_parses_examples:
  "bp_parses (JString ''150/95'')" "bp_parses (JString ''118/76'')"
  "bp_parses (JString ''130/89'')" "bp_parses (JString ''150/95/100'')"
  "\<not> bp_parses (JString ''N/A'')" "\<not> bp_parses (JString [])"
  by (simp_all add: bp_parses_iff reading_prefix_def is_digit_def)

theorem hasDataQualityIssues_validity_only_witness:
  "hasDataQualityIssues (patient ''p1'' (JString ''150/95'') (JNumber (Finite 102.3)) (JNumber (Finite 70))) = Inr False
   \<and> hasDataQualityIssues (patient ''p3'' (JString ''N/A'') (JNumber (Finite 98.2)) (JNumber (Finite 30))) = Inr True
   \<and> hasDataQualityIssues (patient ''p4'' (JString ''118/76'') JNull (JNumber (Finite 30))) = Inr True
   \<and> hasDataQualityIssues (patient ''p5'' (JString ''118/76'') (JString ''TEMP_ERROR'') (JNumber (Finite 30))) = Inr True
   \<and> hasDataQualityIssues (patient ''p6'' (JString ''118/76'') (JNumber (Finite 98.2)) (JNumber NaN)) = Inr True"
proof -
  have good: "hasDataQualityIssues p = Inr False"
    if "bp_parses (blood_pressure p)" "is_numeric (temperature p)" "is_numeric (age p)" for p
    using hasDataQualityIssues_validity_only[of p] that by auto
  have bad_bp: "hasDataQualityIssues p = Inr True" if "\<not> bp_parses (blood_pressure p)" for p
    using hasDataQualityIssues_validity_only[of p] that by auto
  have bad_temp: "hasDataQualityIssues p = Inr True" if "missing_or_nan (temperature p)" for p
    using hasDataQualityIssues_validity_only[of p] that by auto
  have bad_age: "hasDataQualityIssues p = Inr True" if "missing_or_nan (age p)" for p
    using hasDataQualityIssues_validity_only[of p] that by auto
  have 1: "hasDataQualityIssues (patient ''p1'' (JString ''150/95'') (JNumber (Finite 102.3)) (JNumber (Finite 70))) = Inr False"
    by (rule good) (simp_all add: patient_def bp_parses_examples is_numeric_def)
  have 3: "hasDataQualityIssues (patient ''p3'' (JString ''N/A'') (JNumber (Finite 98.2)) (JNumber (Finite 30))) = Inr True"
    by (rule bad_bp) (simp add: patient_def bp_parses_examples)
  have 4: "hasDataQualityIssues (patient ''p4'' (JString ''118/76'') JNull (JNumber (Finite 30))) = Inr True"
    by (rule bad_temp) (simp add: patient_def missing_or_nan_examples)
  have 5: "hasDataQualityIssues (patient ''p5'' (JString ''118/76'') (JString ''TEMP_ERROR'') (JNumber (Finite 30))) = Inr True"
    by (rule bad_temp) (simp add: patient_def missing_or_nan_examples)
  have 6: "hasDataQualityIssues (patient ''p6'' (JString ''118/76'') (JNumber (Finite 98.2)) (JNumber NaN)) = Inr True"
    by (rule bad_age) (simp add: patient_def missing_or_nan_examples)
  from 1 3 4 5 6 show ?thesis by blast
qed

text \<open>
  C3 as stated, with every temperature and age that is not a number flagged, fails on a
  temperature that is the empty string or the string \<^verbatim>\<open>"102.5"\<close> and on an age that is
  \<^verbatim>\<open>true\<close>: each converts to a number, and the record is not flagged.
\<close>

theorem hasDataQualityIssues_counterexample:
  "hasDataQualityIssues (patient ''p'' (JString ''118/76'') (JString []) (JNumber (Finite 30)))
     = Inr False
   \<and> \<not> is_numeric (JString [])
   \<and> hasDataQualityIssues (patient ''p'' (JString ''118/76'') (JString ''102.5'')
        (JNumber (Finite 30)))
     = Inr False
   \<and> \<not> is_numeric (JString ''102.5'')
   \<and> hasDataQualityIssues (patient ''p'' (JString ''118/76'') (JNumber (Finite 98.2)) (JBoolean True))
     = Inr False
   \<and> \<not> is_numeric (JBoolean True)"
  by (simp add: hasDataQualityIssues_eq patient_def bp_parses_examples missing_or_nan_def
      isNaN_def string_to_number_examples is_numeric_def)

section \<open>The leftmost reading\<close>

lemma contains_reading_150: "contains_reading ''150/95/100''"
  unfolding contains_reading_def reading_at_def
  by (intro exI[of _ "[]"] exI[of _ "''150''"] exI[of _ "''95''"] exI[of _ "''/100''"])
     (simp add: digits_def is_digit_def)

lemma contains_reading_embedded: "contains_reading ''BP: 120/80 mmHg''"
  unfolding contains_reading_def reading_at_def
  by (intro exI[of _ "''BP: ''"] exI[of _ "''120''"] exI[of _ "''80''"] exI[of _ "'' mmHg''"])
     (simp add: digits_def is_digit_def)

text \<open>
  C10, as the code has it. When a string contains a reading anywhere,
  \<^verbatim>\<open>parseBloodPressure\<close> succeeds and returns the numbers of the leftmost one, each
  group as long as it can be and its number rounded to a double (the integer itself below
  \<open>2 ^ 53\<close>), whatever stands around it; that reading is unique. A record with such a
  blood pressure is never flagged by \<^verbatim>\<open>hasDataQualityIssues\<close> on account of it: its
  flag is the one it has with the blood pressure \<^verbatim>\<open>120/80\<close>, and is false when
  temperature and age are numbers other than \<open>NaN\<close>.
\<close>

theorem parse_takes_leftmost_reading:
  assumes "contains_reading s"
  shows "\<exists>pre g1 g2 post.
           leftmost_reading s pre g1 g2 post
           \<and> parseBloodPressure (JString s)
               = Inr \<lparr>systolic = Some (double_of_nat (dec_value g1)),
                      diastolic = Some (double_of_nat (dec_value g2))\<rparr>
           \<and> (dec_value g1 < 2 ^ 53 \<longrightarrow> double_of_nat (dec_value g1) = from_nat (dec_value g1))
           \<and> (dec_value g2 < 2 ^ 53 \<longrightarrow> double_of_nat (dec_value g2) = from_nat (dec_value g2))
           \<and> (\<forall>pre' h1 h2 post'. leftmost_reading s pre' h1 h2 post' \<longrightarrow> h1 = g1 \<and> h2 = g2)
           \<and> (\<forall>p. blood_pressure p = JString s \<longrightarrow>
                  hasDataQualityIssues p
                    = hasDataQualityIssues (p\<lparr>blood_pressure := JString ''120/80''\<rparr>)
                  \<and> (is_numeric (temperature p) \<and> is_numeric (age p) \<longrightarrow>
                       hasDataQualityIssues p = Inr False))"
proof -
  from assms obtain g1 g2 where f: "first_reading s = Some (g1, g2)"
    using first_reading_None[of s] by (cases "first_reading s") auto
  from first_reading_Some[OF f] obtain pre post where l: "leftmost_reading s pre g1 g2 post"
    by blast
  have p: "parseBloodPressure (JString s)
      = Inr \<lparr>systolic = Some (double_of_nat (dec_value g1)),
             diastolic = Some (double_of_nat (dec_value g2))\<rparr>"
    unfolding parseBloodPressure_eq using f by simp
  have x: "dec_value g1 < 2 ^ 53 \<longrightarrow> double_of_nat (dec_value g1) = from_nat (dec_value g1)"
    "dec_value g2 < 2 ^ 53 \<longrightarrow> double_of_nat (dec_value g2) = from_nat (dec_value g2)"
    by (simp_all add: double_of_nat_exact)
  have b: "bp_parses (JString s)" using assms by (simp add: bp_parses_def)
  have c: "bp_parses (JString ''120/80'')" by (simp add: bp_parses_def contains_reading_120_80)
  have q: "\<forall>p. blood_pressure p = JString s \<longrightarrow>
      hasDataQualityIssues p = hasDataQualityIssues (p\<lparr>blood_pressure := JString ''120/80''\<rparr>)
      \<and> (is_numeric (temperature p) \<and> is_numeric (age p) \<longrightarrow> hasDataQualityIssues p = Inr False)"
  proof (intro allI impI conjI)
    fix p :: Patient
    assume e: "blood_pressure p = JString s"
    show "hasDataQualityIssues p = hasDataQualityIssues (p\<lparr>blood_pressure := JString ''120/80''\<rparr>)"
      using b c by (simp add: hasDataQualityIssues_eq e)
    assume "is_numeric (temperature p) \<and> is_numeric (age p)"
    then have "\<not> missing_or_nan (temperature p)" "\<not> missing_or_nan (age p)"
      by (simp_all add: is_numeric_not_missing)
    then show "hasDataQualityIssues p = Inr False"
      using b by (simp add: hasDataQualityIssues_eq e)
  qed
  have u: "\<forall>pre' h1 h2 post'. leftmost_reading s pre' h1 h2 post' \<longrightarrow> h1 = g1 \<and> h2 = g2"
    using leftmost_reading_first f by fastforce
  from l p x u q show ?thesis by blast
qed

theorem parse_takes_leftmost_reading_witness:
  "contains_reading ''150/95/100''
   \<and> parseBloodPressure (JString ''150/95/100'')
       = Inr \<lparr>systolic = Some (from_nat 150), diastolic = Some (from_nat 95)\<rparr>
   \<and> hasDataQualityIssues
        (patient ''p'' (JString ''150/95/100'') (JNumber (Finite 98.6)) (JNumber (Finite 45)))
       = Inr False"
proof -
  from parse_takes_leftmost_reading[OF contains_reading_150]
  obtain pre g1 g2 post where
    l: "leftmost_reading ''150/95/100'' pre g1 g2 post"
    and p: "parseBloodPressure (JString ''150/95/100'')
       = Inr \<lparr>systolic = Some (double_of_nat (dec_value g1)),
              diastolic = Some (double_of_nat (dec_value g2))\<rparr>"
    and x: "dec_value g1 < 2 ^ 53 \<longrightarrow> double_of_nat (dec_value g1) = from_nat (dec_value g1)"
      "dec_value g2 < 2 ^ 53 \<longrightarrow> double_of_nat (dec_value g2) = from_nat (dec_value g2)"
    and q: "\<forall>p. blood_pressure p = JString ''150/95/100'' \<longrightarrow>
      hasDataQualityIssues p = hasDataQualityIssues (p\<lparr>blood_pressure := JString ''120/80''\<rparr>)
      \<and> (is_numeric (temperature p) \<and> is_numeric (age p) \<longrightarrow> hasDataQualityIssues p = Inr False)"
    by blast
  have "first_reading ''150/95/100'' = Some (''150'', ''95'')"
    by (simp add: reading_prefix_def is_digit_def)
  moreover have "first_reading ''150/95/100'' = Some (g1, g2)"
    using l by (rule leftmost_reading_first)
  ultimately have g: "g1 = ''150''" "g2 = ''95''" by simp_all
  from x have v: "double_of_nat (dec_value ''150'') = from_nat 150"
    "double_of_nat (dec_value ''95'') = from_nat 95"
    unfolding g by (simp_all add: dec_value_examples)
  have d: "hasDataQualityIssues
        (patient ''p'' (JString ''150/95/100'') (JNumber (Finite 98.6)) (JNumber (Finite 45)))
       = Inr False"
  proof -
    let ?p = "patient ''p'' (JString ''150/95/100'') (JNumber (Finite 98.6)) (JNumber (Finite 45))"
    have "blood_pressure ?p = JString ''150/95/100''" "is_numeric (temperature ?p)"
      "is_numeric (age ?p)"
      by (simp_all add: patient_def is_numeric_def)
    with q show ?thesis by blast
  qed
  from p g v d contains_reading_150 show ?thesis by simp
qed

section \<open>The patient classifier\<close>

lemma bloodPressureScore_range: "bloodPressureScore s d \<in> {0..3}"
  by (cases s; cases d) (simp_all add: bloodPressureScore_def)

lemma calculateBloodPressureRisk_total:
  "\<exists>b. calculateBloodPressureRisk v = Inr b \<and> b \<in> {0..3}"
proof -
  obtain r where "parseBloodPressure v = Inr r" using parseBloodPressure_eq[of v] by blast
  then show ?thesis
    unfolding calculateBloodPressureRisk_def using bloodPressureScore_range by simp
qed

lemma calculateTemperatureRisk_range: "calculateTemperatureRisk t \<in> {0..2}"
  by (simp add: calculateTemperatureRisk_def)

lemma calculateAgeRisk_range: "calculateAgeRisk a \<in> {0..2}"
  by (simp add: calculateAgeRisk_def)

lemma checkRisk_value:
  assumes "calculateBloodPressureRisk (blood_pressure p) = Inr b"
  shows "checkRisk p =
         Inr \<lparr>patientId = patient_id p,
              riskScores =
                \<lparr>bloodPressure = b,
                 temperature_score = calculateTemperatureRisk (temperature p),
                 age_score = calculateAgeRisk (age p),
                 total = b + calculateTemperatureRisk (temperature p) + calculateAgeRisk (age p)\<rparr>,
              isHighRisk = (4 \<le> b + calculateTemperatureRisk (temperature p) + calculateAgeRisk (age p)),
              hasFever = fever_of (temperature p),
              hasDataQualityIssues_flag =
                (\<not> bp_parses (blood_pressure p) \<or> missing_or_nan (temperature p)
                 \<or> missing_or_nan (age p))\<rparr>"
  unfolding checkRisk_def assms hasDataQualityIssues_eq
  by (simp add: Let_def fever_of_def)

lemma checkRisk_eq:
  "\<exists>b. calculateBloodPressureRisk (blood_pressure p) = Inr b \<and> b \<in> {0..3}
     \<and> checkRisk p =
         Inr \<lparr>patientId = patient_id p,
              riskScores =
                \<lparr>bloodPressure = b,
                 temperature_score = calculateTemperatureRisk (temperature p),
                 age_score = calculateAgeRisk (age p),
                 total = b + calculateTemperatureRisk (temperature p) + calculateAgeRisk (age p)\<rparr>,
              isHighRisk = (4 \<le> b + calculateTemperatureRisk (temperature p) + calculateAgeRisk (age p)),
              hasFever = fever_of (temperature p),
              hasDataQualityIssues_flag =
                (\<not> bp_parses (blood_pressure p) \<or> missing_or_nan (temperature p)
                 \<or> missing_or_nan (age p))\<rparr>"
  using calculateBloodPressureRisk_total[of "blood_pressure p"] checkRisk_value[of p] by blast

lemma fever_of_number:
  "fever_of (JNumber n) \<longleftrightarrow> (n = PosInf \<or> (\<exists>r. n = Finite r \<and> double_99_6 \<le> r))"
  by (cases n) (auto simp add: fever_of_def js_ge_def js_le_def isNaN_def)

lemma fever_of_number': "fever_of (JNumber n) \<longleftrightarrow> is_numeric (JNumber n) \<and> js_ge n (Finite double_99_6)"
  by (cases n) (auto simp add: fever_of_def js_ge_def js_le_def isNaN_def is_numeric_def)

lemma fever_of_missing: "missing_or_nan t \<Longrightarrow> \<not> fever_of t"
  by (auto simp add: fever_of_def missing_or_nan_def)

lemma double_99_6_nearest: "\<bar>double_99_6 - 99.6\<bar> \<le> 1 / 2 ^ 47 \<and> double_99_6 = 7008726920095334 / 2 ^ 46"
  by (simp add: double_99_6_def)

lemma bp_risk_examples:
  "calculateBloodPressureRisk (JString ''118/76'') = Inr 0"
  "calculateBloodPressureRisk (JString ''150/95'') = Inr 3"
  "calculateBloodPressureRisk (JString ''130/89'') = Inr 2"
  "calculateBloodPressureRisk (JString ''150/95/100'') = Inr 3"
  "calculateBloodPressureRisk (JString []) = Inr 0"
  "calculateBloodPressureRisk (JString ''110/70'') = Inr 0"
  "calculateBloodPressureRisk (JString ''125/70'') = Inr 1"
  "calculateBloodPressureRisk (JString ''135/70'') = Inr 2"
  "calculateBloodPressureRisk (JString ''150/70'') = Inr 3"
  by (simp_all add: bp_eval)

lemmas num_score_eval =
  calculateTemperatureRisk_def calculateAgeRisk_def isNaN_def js_le_def js_ge_def js_gt_def
  double_99_6_def string_to_number_examples fever_of_def missing_or_nan_def

lemma temperature_risk_examples:
  "calculateTemperatureRisk (JNumber (Finite 98)) = 0"
  "calculateTemperatureRisk (JNumber (Finite 98.2)) = 0"
  "calculateTemperatureRisk (JNumber (Finite 100)) = 1"
  "calculateTemperatureRisk (JNumber (Finite double_99_6)) = 1"
  "calculateTemperatureRisk (JNumber (Finite 102)) = 2"
  "calculateTemperatureRisk (JNumber (Finite 102.3)) = 2"
  "calculateTemperatureRisk JNull = 0"
  "calculateTemperatureRisk (JString ''102.5'') = 2"
  "calculateTemperatureRisk (JArray [JNumber (Finite 102.5)]) = 2"
  by (simp_all add: num_score_eval)

lemma age_risk_examples:
  "calculateAgeRisk (JNumber (Finite 30)) = 0"
  "calculateAgeRisk (JNumber (Finite 50)) = 1"
  "calculateAgeRisk (JNumber (Finite 65)) = 1"
  "calculateAgeRisk (JNumber (Finite 70)) = 2"
  "calculateAgeRisk (JNumber NaN) = 0"
  "calculateAgeRisk JUndefined = 0"
  by (simp_all add: num_score_eval)

lemma fever_examples:
  "fever_of (JNumber (Finite double_99_6))" "fever_of (JNumber (Finite 102.3))"
  "fever_of (JNumber (Finite 100))" "fever_of (JNumber (Finite 102))"
  "\<not> fever_of (JNumber (Finite 98.2))" "\<not> fever_of JNull" "\<not> fever_of (JNumber (Finite 98))"
  "fever_of (JString ''102.5'')" "fever_of (JArray [JNumber (Finite 102.5)])"
  by (simp_all add: num_score_eval)

lemma eval_scenario_4:
  "checkRisk (patient ''p4'' (JString ''130/89'') (JNumber (Finite double_99_6)) (JNumber (Finite 65)))
     = Inr \<lparr>patientId = ''p4'',
            riskScores = \<lparr>bloodPressure = 2, temperature_score = 1, age_score = 1, total = 4\<rparr>,
            isHighRisk = True, hasFever = True, hasDataQualityIssues_flag = False\<rparr>"
proof -
  let ?p = "patient ''p4'' (JString ''130/89'') (JNumber (Finite double_99_6)) (JNumber (Finite 65))"
  have "calculateBloodPressureRisk (blood_pressure ?p) = Inr 2"
    by (simp add: patient_def bp_risk_examples)
  from checkRisk_value[OF this] show ?thesis
    by (simp add: patient_def temperature_risk_examples age_risk_examples fever_examples
        bp_parses_examples missing_or_nan_def isNaN_def)
qed

text \<open>
  C4, as the code has it. A temperature that is \<^verbatim>\<open>null\<close>, \<^verbatim>\<open>undefined\<close> or converts
  to \<open>NaN\<close> never sets the fever flag of \<^verbatim>\<open>checkRisk\<close>, whatever the other fields
  are; when the temperature is a number, the flag is set exactly when the number is valid
  and at least 99.6, the number the literal \<^verbatim>\<open>99.6\<close> denotes: the double
  \<open>double_99_6\<close>, within \<open>1 / 2 ^ 47\<close> of the decimal. Nothing is stated of a
  temperature that is not a number and converts to one.
\<close>

theorem hasFever_iff_valid_and_at_least:
  "(\<exists>a. checkRisk p = Inr a
      \<and> (missing_or_nan (temperature p) \<longrightarrow> \<not> hasFever a)
      \<and> (\<forall>n. temperature p = JNumber n \<longrightarrow>
            (hasFever a \<longleftrightarrow> is_numeric (temperature p) \<and> js_ge n (Finite double_99_6)))
      \<and> (\<forall>n. temperature p = JNumber n \<longrightarrow>
            (hasFever a \<longleftrightarrow> n = PosInf \<or> (\<exists>r. n = Finite r \<and> double_99_6 \<le> r))))
   \<and> \<bar>double_99_6 - 99.6\<bar> \<le> 1 / 2 ^ 47"
proof -
  from checkRisk_eq[of p] obtain a where
    a: "checkRisk p = Inr a" and f: "hasFever a = fever_of (temperature p)"
    by force
  have 1: "missing_or_nan (temperature p) \<longrightarrow> \<not> hasFever a"
    unfolding f using fever_of_missing by blast
  have 2: "\<forall>n. temperature p = JNumber n \<longrightarrow>
            (hasFever a \<longleftrightarrow> is_numeric (temperature p) \<and> js_ge n (Finite double_99_6))"
    unfolding f using fever_of_number' by simp
  have 3: "\<forall>n. temperature p = JNumber n \<longrightarrow>
            (hasFever a \<longleftrightarrow> n = PosInf \<or> (\<exists>r. n = Finite r \<and> double_99_6 \<le> r))"
    unfolding f using fever_of_number by simp
  from a 1 2 3 double_99_6_nearest show ?thesis by blast
qed

theorem hasFever_iff_valid_and_at_least_witness:
  "(\<exists>a. checkRisk (patient ''p4'' (JString ''130/89'') (JNumber (Finite double_99_6)) (JNumber (Finite 65))) = Inr a
        \<and> hasFever a)
   \<and> (\<exists>a. checkRisk (patient ''p5'' (JString ''150/95'') JNull (JNumber (Finite 70))) = Inr a
        \<and> \<not> hasFever a)
   \<and> (\<exists>a. checkRisk (patient ''p6'' (JString ''150/95'') (JNumber (Finite 99.5)) (JNumber (Finite 70))) = Inr a
        \<and> \<not> hasFever a)
   \<and> (\<exists>a. checkRisk (patient ''p7'' (JString ''150/95'') (JString ''TEMP_ERROR'') (JNumber (Finite 70))) = Inr a
        \<and> \<not> hasFever a)"
proof -
  let ?p4 = "patient ''p4'' (JString ''130/89'') (JNumber (Finite double_99_6)) (JNumber (Finite 65))"
  let ?p5 = "patient ''p5'' (JString ''150/95'') JNull (JNumber (Finite 70))"
  let ?p6 = "patient ''p6'' (JString ''150/95'') (JNumber (Finite 99.5)) (JNumber (Finite 70))"
  let ?p7 = "patient ''p7'' (JString ''150/95'') (JString ''TEMP_ERROR'') (JNumber (Finite 70))"
  have t: "temperature ?p4 = JNumber (Finite double_99_6)" "temperature ?p5 = JNull"
    "temperature ?p6 = JNumber (Finite 99.5)" "temperature ?p7 = JString ''TEMP_ERROR''"
    by (simp_all add: patient_def)
  from hasFever_iff_valid_and_at_least[of ?p4] obtain a4 where
    a4: "checkRisk ?p4 = Inr a4"
    and f4: "\<forall>n. temperature ?p4 = JNumber n \<longrightarrow>
            (hasFever a4 \<longleftrightarrow> n = PosInf \<or> (\<exists>r. n = Finite r \<and> double_99_6 \<le> r))"
    by blast
  from hasFever_iff_valid_and_at_least[of ?p5] obtain a5 where
    a5: "checkRisk ?p5 = Inr a5"
    and f5: "missing_or_nan (temperature ?p5) \<longrightarrow> \<not> hasFever a5"
    by blast
  from hasFever_iff_valid_and_at_least[of ?p6] obtain a6 where
    a6: "checkRisk ?p6 = Inr a6"
    and f6: "\<forall>n. temperature ?p6 = JNumber n \<longrightarrow>
            (hasFever a6 \<longleftrightarrow> n = PosInf \<or> (\<exists>r. n = Finite r \<and> double_99_6 \<le> r))"
    by blast
  from hasFever_iff_valid_and_at_least[of ?p7] obtain a7 where
    a7: "checkRisk ?p7 = Inr a7"
    and f7: "missing_or_nan (temperature ?p7) \<longrightarrow> \<not> hasFever a7"
    by blast
  have 4: "hasFever a4" using f4 unfolding t by simp
  have 5: "\<not> hasFever a5" using f5 unfolding t by (simp add: missing_or_nan_examples)
  have 6: "\<not> hasFever a6" using f6 unfolding t by (simp add: double_99_6_def)
  have 7: "\<not> hasFever a7" using f7 unfolding t by (simp add: missing_or_nan_examples)
  from a4 a5 a6 a7 4 5 6 7 show ?thesis by blast
qed

text \<open>
  C4 as stated, with the flag set only by a temperature that is a valid number, fails on
  the temperature \<^verbatim>\<open>"102.5"\<close>, a string: the comparison converts it and the flag is
  set.
\<close>

theorem hasFever_counterexample:
  "checkRisk (patient ''p'' (JString ''118/76'') (JString ''102.5'') (JNumber (Finite 30)))
     = Inr \<lparr>patientId = ''p'',
            riskScores = \<lparr>bloodPressure = 0, temperature_score = 2, age_score = 0, total = 2\<rparr>,
            isHighRisk = False, hasFever = True, hasDataQualityIssues_flag = False\<rparr>
   \<and> \<not> is_numeric (JString ''102.5'')"
proof -
  let ?p = "patient ''p'' (JString ''118/76'') (JString ''102.5'') (JNumber (Finite 30))"
  have "calculateBloodPressureRisk (blood_pressure ?p) = Inr 0"
    by (simp add: patient_def bp_risk_examples)
  from checkRisk_value[OF this] show ?thesis
    by (simp add: patient_def temperature_risk_examples age_risk_examples fever_examples
        bp_parses_examples missing_or_nan_def isNaN_def string_to_number_examples is_numeric_def)
qed

text \<open>
  C5. The total \<^verbatim>\<open>checkRisk\<close> returns is the sum of the three sub-scores, which are
  the results of the three score functions; the total lies in 0 to 7, the blood-pressure
  score in 0 to 3, the temperature score and the age score in 0 to 2.
\<close>

theorem checkRisk_total_is_sum:
  "\<exists>a. checkRisk p = Inr a
     \<and> calculateBloodPressureRisk (blood_pressure p) = Inr (bloodPressure (riskScores a))
     \<and> temperature_score (riskScores a) = calculateTemperatureRisk (temperature p)
     \<and> age_score (riskScores a) = calculateAgeRisk (age p)
     \<and> total (riskScores a)
         = bloodPressure (riskScores a) + temperature_score (riskScores a) + age_score (riskScores a)
     \<and> 0 \<le> total (riskScores a) \<and> total (riskScores a) \<le> 7
     \<and> bloodPressure (riskScores a) \<in> {0..3}
     \<and> temperature_score (riskScores a) \<in> {0..2}
     \<and> age_score (riskScores a) \<in> {0..2}"
proof -
  from checkRisk_eq[of p] obtain b where
    b: "calculateBloodPressureRisk (blood_pressure p) = Inr b" "b \<in> {0..3}"
    and c: "checkRisk p =
         Inr \<lparr>patientId = patient_id p,
              riskScores =
                \<lparr>bloodPressure = b,
                 temperature_score = calculateTemperatureRisk (temperature p),
                 age_score = calculateAgeRisk (age p),
                 total = b + calculateTemperatureRisk (temperature p) + calculateAgeRisk (age p)\<rparr>,
              isHighRisk = (4 \<le> b + calculateTemperatureRisk (temperature p) + calculateAgeRisk (age p)),
              hasFever = fever_of (temperature p),
              hasDataQualityIssues_flag =
                (\<not> bp_parses (blood_pressure p) \<or> missing_or_nan (temperature p)
                 \<or> missing_or_nan (age p))\<rparr>"
    by blast
  show ?thesis
    unfolding c using b calculateTemperatureRisk_range[of "temperature p"]
      calculateAgeRisk_range[of "age p"]
    by simp
qed

theorem checkRisk_total_is_sum_witness:
  "\<exists>a. checkRisk (patient ''p2'' (JString ''150/95'') (JNumber (Finite 102.3)) (JNumber (Finite 70))) = Inr a
     \<and> bloodPressure (riskScores a) = 3 \<and> temperature_score (riskScores a) = 2
     \<and> age_score (riskScores a) = 2 \<and> total (riskScores a) = 7"
  using checkRisk_total_is_sum[of "patient ''p2'' (JString ''150/95'') (JNumber (Finite 102.3)) (JNumber (Finite 70))"]
  by (auto simp add: patient_def bp_risk_examples num_score_eval)

lemma bp_score_reachable:
  "b \<in> {0..3} \<Longrightarrow> \<exists>v. calculateBloodPressureRisk v = Inr b"
proof -
  assume "b \<in> {0..3}"
  then consider "b = 0" | "b = 1" | "b = 2" | "b = 3" by (auto simp add: atLeastAtMost_iff) arith
  then show ?thesis using bp_risk_examples(6-9) by cases blast+
qed

lemma temperature_score_reachable:
  "t \<in> {0..2} \<Longrightarrow> \<exists>x. calculateTemperatureRisk x = t"
proof -
  assume "t \<in> {0..2}"
  then consider "t = 0" | "t = 1" | "t = 2" by (auto simp add: atLeastAtMost_iff) arith
  then show ?thesis using temperature_risk_examples(1,3,5) by cases blast+
qed

lemma age_score_reachable:
  "g \<in> {0..2} \<Longrightarrow> \<exists>x. calculateAgeRisk x = g"
proof -
  assume "g \<in> {0..2}"
  then consider "g = 0" | "g = 1" | "g = 2" by (auto simp add: atLeastAtMost_iff) arith
  then show ?thesis using age_risk_examples(1,2,4) by cases blast+
qed

lemma scores_reachable:
  assumes "b \<in> {0..3}" "t \<in> {0..2}" "g \<in> {0..2}"
  shows "\<exists>p a. checkRisk p = Inr a
           \<and> bloodPressure (riskScores a) = b \<and> temperature_score (riskScores a) = t
           \<and> age_score (riskScores a) = g \<and> (isHighRisk a \<longleftrightarrow> 4 \<le> b + t + g)"
proof -
  from bp_score_reachable[OF assms(1)] obtain v where v: "calculateBloodPressureRisk v = Inr b" by blast
  from temperature_score_reachable[OF assms(2)] obtain x where x: "calculateTemperatureRisk x = t" by blast
  from age_score_reachable[OF assms(3)] obtain y where y: "calculateAgeRisk y = g" by blast
  let ?p = "patient [] v x y"
  have f: "blood_pressure ?p = v" "temperature ?p = x" "age ?p = y" by (simp_all add: patient_def)
  from checkRisk_eq[of ?p] v x y show ?thesis unfolding f by force
qed

text \<open>
  C6. The high-risk flag of \<^verbatim>\<open>checkRisk\<close> is set exactly when the total, the sum of
  the three sub-scores, is at least 4. Every combination of sub-scores in their ranges is
  the verdict of some record, and the flag follows the sum there.
\<close>

theorem isHighRisk_iff_total_at_least_4:
  "(\<exists>a. checkRisk p = Inr a
      \<and> (isHighRisk a \<longleftrightarrow> 4 \<le> total (riskScores a))
      \<and> (isHighRisk a \<longleftrightarrow>
           4 \<le> bloodPressure (riskScores a) + temperature_score (riskScores a)
                 + age_score (riskScores a)))
   \<and> (\<forall>b t g. b \<in> {0..3} \<and> t \<in> {0..2} \<and> g \<in> {0..2} \<longrightarrow>
         (\<exists>q a. checkRisk q = Inr a
            \<and> bloodPressure (riskScores a) = b \<and> temperature_score (riskScores a) = t
            \<and> age_score (riskScores a) = g \<and> (isHighRisk a \<longleftrightarrow> 4 \<le> b + t + g)))"
proof -
  have 1: "\<exists>a. checkRisk p = Inr a
      \<and> (isHighRisk a \<longleftrightarrow> 4 \<le> total (riskScores a))
      \<and> (isHighRisk a \<longleftrightarrow>
           4 \<le> bloodPressure (riskScores a) + temperature_score (riskScores a)
                 + age_score (riskScores a))"
    using checkRisk_eq[of p] by force
  from 1 scores_reachable show ?thesis by blast
qed

theorem isHighRisk_iff_total_at_least_4_witness:
  "(\<exists>a. checkRisk (patient ''p4'' (JString ''130/89'') (JNumber (Finite double_99_6)) (JNumber (Finite 65))) = Inr a
        \<and> total (riskScores a) = 4 \<and> isHighRisk a)
   \<and> (\<exists>q a. checkRisk q = Inr a \<and> bloodPressure (riskScores a) = 3
        \<and> temperature_score (riskScores a) = 0 \<and> age_score (riskScores a) = 0 \<and> \<not> isHighRisk a)"
proof -
  let ?p = "patient ''p4'' (JString ''130/89'') (JNumber (Finite double_99_6)) (JNumber (Finite 65))"
  from isHighRisk_iff_total_at_least_4[of ?p] obtain a where
    a: "checkRisk ?p = Inr a" and h: "isHighRisk a \<longleftrightarrow> 4 \<le> total (riskScores a)"
    by blast
  from a have t: "total (riskScores a) = 4" unfolding eval_scenario_4 by auto
  with h have "isHighRisk a" by simp
  with a t have 1: "\<exists>a. checkRisk ?p = Inr a \<and> total (riskScores a) = 4 \<and> isHighRisk a" by blast
  from isHighRisk_iff_total_at_least_4[of ?p]
  have r: "\<forall>b t g. b \<in> {0..3} \<and> t \<in> {0..2} \<and> g \<in> {0..2} \<longrightarrow>
         (\<exists>q a. checkRisk q = Inr a
            \<and> bloodPressure (riskScores a) = b \<and> temperature_score (riskScores a) = t
            \<and> age_score (riskScores a) = g \<and> (isHighRisk a \<longleftrightarrow> 4 \<le> b + t + g))"
    by blast
  have "(3::int) \<in> {0..3} \<and> (0::int) \<in> {0..2} \<and> (0::int) \<in> {0..2}" by simp
  with r have "\<exists>q a. checkRisk q = Inr a
            \<and> bloodPressure (riskScores a) = 3 \<and> temperature_score (riskScores a) = 0
            \<and> age_score (riskScores a) = 0 \<and> (isHighRisk a \<longleftrightarrow> (4::int) \<le> 3 + 0 + 0)"
    by blast
  then have 2: "\<exists>q a. checkRisk q = Inr a \<and> bloodPressure (riskScores a) = 3
        \<and> temperature_score (riskScores a) = 0 \<and> age_score (riskScores a) = 0 \<and> \<not> isHighRisk a"
    by simp
  from 1 2 show ?thesis by blast
qed

section \<open>The temperature score\<close>

text \<open>
  C7, as the code has it. \<^verbatim>\<open>calculateTemperatureRisk\<close> returns 0, 1 or 2 on every
  value: 0 on \<^verbatim>\<open>null\<close>, \<^verbatim>\<open>undefined\<close> and every value that converts to \<open>NaN\<close>,
  0 on a number up to 99.5, 1 on a number from 99.6 (the double the literal denotes, which
  lies just below the decimal) to below 101, and 2 on a number from 101 on. Nothing is
  stated of a value that is not a number and converts to one.
\<close>

theorem calculateTemperatureRisk_bands:
  "calculateTemperatureRisk t \<in> {0, 1, 2}
   \<and> (missing_or_nan t \<longrightarrow> calculateTemperatureRisk t = 0)
   \<and> (\<forall>r. t = JNumber (Finite r) \<and> r \<le> 99.5 \<longrightarrow> calculateTemperatureRisk t = 0)
   \<and> (\<forall>r. t = JNumber (Finite r) \<and> double_99_6 \<le> r \<and> r < 101 \<longrightarrow> calculateTemperatureRisk t = 1)
   \<and> (\<forall>r. t = JNumber (Finite r) \<and> 101 \<le> r \<longrightarrow> calculateTemperatureRisk t = 2)
   \<and> (t = JNumber NegInf \<longrightarrow> calculateTemperatureRisk t = 0)
   \<and> (t = JNumber PosInf \<longrightarrow> calculateTemperatureRisk t = 2)
   \<and> double_99_6 \<le> 99.6 \<and> 99.5 < double_99_6"
proof -
  have r: "calculateTemperatureRisk t \<in> {0, 1, 2}"
    by (simp add: calculateTemperatureRisk_def)
  have n: "missing_or_nan t \<longrightarrow> calculateTemperatureRisk t = 0"
    by (simp add: missing_or_nan_def calculateTemperatureRisk_def)
  have c: "99.5 < double_99_6" "double_99_6 \<le> 99.6" by (simp_all add: double_99_6_def)
  have f: "calculateTemperatureRisk (JNumber (Finite r)) =
      (if r \<le> 99.5 then 0 else if double_99_6 \<le> r \<and> r < 101 then 1 else if 101 \<le> r then 2 else 0)"
    for r
    by (simp add: calculateTemperatureRisk_def isNaN_def js_le_def js_ge_def)
  have lo: "\<forall>r. t = JNumber (Finite r) \<and> r \<le> 99.5 \<longrightarrow> calculateTemperatureRisk t = 0"
    by (simp add: f)
  have mid: "\<forall>r. t = JNumber (Finite r) \<and> double_99_6 \<le> r \<and> r < 101 \<longrightarrow> calculateTemperatureRisk t = 1"
    using c by (auto simp add: f)
  have hi: "\<forall>r. t = JNumber (Finite r) \<and> 101 \<le> r \<longrightarrow> calculateTemperatureRisk t = 2"
    using c by (auto simp add: f double_99_6_def)
  have inf: "t = JNumber NegInf \<longrightarrow> calculateTemperatureRisk t = 0"
    "t = JNumber PosInf \<longrightarrow> calculateTemperatureRisk t = 2"
    by (simp_all add: calculateTemperatureRisk_def isNaN_def js_le_def js_ge_def)
  from r n lo mid hi inf c show ?thesis by blast
qed

theorem calculateTemperatureRisk_bands_witness:
  "calculateTemperatureRisk (JNumber (Finite 98.2)) = 0
   \<and> calculateTemperatureRisk (JNumber (Finite 99.5)) = 0
   \<and> calculateTemperatureRisk (JNumber (Finite double_99_6)) = 1
   \<and> calculateTemperatureRisk (JNumber (Finite 100.9)) = 1
   \<and> calculateTemperatureRisk (JNumber (Finite 101)) = 2
   \<and> calculateTemperatureRisk JNull = 0
   \<and> calculateTemperatureRisk JUndefined = 0
   \<and> calculateTemperatureRisk (JNumber NaN) = 0
   \<and> calculateTemperatureRisk (JString ''TEMP_ERROR'') = 0
   \<and> calculateTemperatureRisk JObject = 0"
proof -
  have lo: "calculateTemperatureRisk (JNumber (Finite r)) = 0" if "r \<le> 99.5" for r
    using calculateTemperatureRisk_bands[of "JNumber (Finite r)"] that by blast
  have mid: "calculateTemperatureRisk (JNumber (Finite r)) = 1" if "double_99_6 \<le> r \<and> r < 101" for r
    using calculateTemperatureRisk_bands[of "JNumber (Finite r)"] that by blast
  have hi: "calculateTemperatureRisk (JNumber (Finite r)) = 2" if "101 \<le> r" for r
    using calculateTemperatureRisk_bands[of "JNumber (Finite r)"] that by blast
  have inv: "calculateTemperatureRisk t = 0" if "missing_or_nan t" for t
    using calculateTemperatureRisk_bands[of t] that by blast
  have 1: "calculateTemperatureRisk (JNumber (Finite 98.2)) = 0" by (rule lo) simp
  have 2: "calculateTemperatureRisk (JNumber (Finite 99.5)) = 0" by (rule lo) simp
  have 3: "calculateTemperatureRisk (JNumber (Finite double_99_6)) = 1"
    by (rule mid) (simp add: double_99_6_def)
  have 4: "calculateTemperatureRisk (JNumber (Finite 100.9)) = 1"
    by (rule mid) (simp add: double_99_6_def)
  have 5: "calculateTemperatureRisk (JNumber (Finite 101)) = 2" by (rule hi) simp
  have 6: "calculateTemperatureRisk JNull = 0" by (rule inv) (rule missing_or_nan_examples)
  have 7: "calculateTemperatureRisk JUndefined = 0" by (rule inv) (rule missing_or_nan_examples)
  have 8: "calculateTemperatureRisk (JNumber NaN) = 0" by (rule inv) (rule missing_or_nan_examples)
  have 9: "calculateTemperatureRisk (JString ''TEMP_ERROR'') = 0"
    by (rule inv) (rule missing_or_nan_examples)
  have 10: "calculateTemperatureRisk JObject = 0" by (rule inv) (rule missing_or_nan_examples)
  from 1 2 3 4 5 6 7 8 9 10 show ?thesis by blast
qed

text \<open>
  C7 as stated, with 0 on every value that is not a number, fails on the string
  \<^verbatim>\<open>"102.5"\<close> and on the array \<^verbatim>\<open>[102.5]\<close>: both convert to 102.5 and score 2.
\<close>

theorem calculateTemperatureRisk_counterexample:
  "calculateTemperatureRisk (JString ''102.5'') = 2
   \<and> \<not> is_numeric (JString ''102.5'')
   \<and> calculateTemperatureRisk (JArray [JNumber (Finite 102.5)]) = 2
   \<and> \<not> is_numeric (JArray [JNumber (Finite 102.5)])"
  by (simp add: num_score_eval is_numeric_def)

section \<open>The batch analyzer\<close>

lemma checkRisk_returns: "\<exists>a. checkRisk p = Inr a \<and> patientId a = patient_id p"
  using checkRisk_eq[of p] by force

lemma map_checked_checkRisk:
  "\<exists>as. map_checked checkRisk ps = Inr as \<and> map checkRisk ps = map Inr as"
proof (induction ps)
  case Nil
  show ?case by simp
next
  case (Cons p ps)
  from checkRisk_returns[of p] obtain a where a: "checkRisk p = Inr a" by blast
  from Cons.IH obtain as where "map_checked checkRisk ps = Inr as" "map checkRisk ps = map Inr as"
    by blast
  with a show ?case by simp
qed

lemma ids_of_flagged:
  "map checkRisk ps = map Inr as \<Longrightarrow>
     map patientId (filter flag as) = map patient_id (filter (verdict flag) ps)"
proof (induction ps arbitrary: as)
  case Nil
  then show ?case by simp
next
  case (Cons p ps)
  then obtain a as' where as: "as = a # as'" and a: "checkRisk p = Inr a"
    and rest: "map checkRisk ps = map Inr as'"
    by (cases as) auto
  from checkRisk_returns[of p] a have i: "patientId a = patient_id p" by simp
  have v: "verdict flag p = flag a" by (simp add: verdict_def a)
  from Cons.IH[OF rest] i v show ?case by (simp add: as)
qed

lemma subseq_ids: "subseq (map f (filter P xs)) (map f xs)"
  by (simp add: subseq_map)

lemma verdicts_value:
  assumes "calculateBloodPressureRisk (blood_pressure p) = Inr b"
  shows "verdict isHighRisk p
           = (4 \<le> b + calculateTemperatureRisk (temperature p) + calculateAgeRisk (age p))"
    and "verdict hasFever p = fever_of (temperature p)"
    and "verdict hasDataQualityIssues_flag p
           = (\<not> bp_parses (blood_pressure p) \<or> missing_or_nan (temperature p)
              \<or> missing_or_nan (age p))"
  unfolding verdict_def checkRisk_value[OF assms] by simp_all

lemmas verdict_eval =
  patient_def bp_risk_examples num_score_eval bp_parses_examples

lemma verdicts_independent:
  "\<exists>p. verdict isHighRisk p = h \<and> verdict hasFever p = f \<and> verdict hasDataQualityIssues_flag p = d"
proof -
  let ?ok = "JString ''118/76''" and ?hi = "JString ''150/95''" and ?bad = "JString []"
  let ?cool = "JNumber (Finite 98.2)" and ?warm = "JNumber (Finite 100)" and ?hot = "JNumber (Finite 102.3)"
  let ?young = "JNumber (Finite 30)" and ?old = "JNumber (Finite 70)"
  have b: "calculateBloodPressureRisk (blood_pressure (patient [] ?ok t a)) = Inr 0"
    "calculateBloodPressureRisk (blood_pressure (patient [] ?hi t a)) = Inr 3"
    "calculateBloodPressureRisk (blood_pressure (patient [] ?bad t a)) = Inr 0" for t a
    by (simp_all add: patient_def bp_risk_examples)
  have 1: "\<not> verdict isHighRisk (patient [] ?ok ?cool ?young) \<and> \<not> verdict hasFever (patient [] ?ok ?cool ?young)
       \<and> \<not> verdict hasDataQualityIssues_flag (patient [] ?ok ?cool ?young)"
    unfolding verdicts_value[OF b(1)] by (simp add: verdict_eval)
  have 2: "\<not> verdict isHighRisk (patient [] ?bad ?cool ?young) \<and> \<not> verdict hasFever (patient [] ?bad ?cool ?young)
       \<and> verdict hasDataQualityIssues_flag (patient [] ?bad ?cool ?young)"
    unfolding verdicts_value[OF b(3)] by (simp add: verdict_eval)
  have 3: "\<not> verdict isHighRisk (patient [] ?ok ?warm ?young) \<and> verdict hasFever (patient [] ?ok ?warm ?young)
       \<and> \<not> verdict hasDataQualityIssues_flag (patient [] ?ok ?warm ?young)"
    unfolding verdicts_value[OF b(1)] by (simp add: verdict_eval)
  have 4: "\<not> verdict isHighRisk (patient [] ?bad ?warm ?young) \<and> verdict hasFever (patient [] ?bad ?warm ?young)
       \<and> verdict hasDataQualityIssues_flag (patient [] ?bad ?warm ?young)"
    unfolding verdicts_value[OF b(3)] by (simp add: verdict_eval)
  have 5: "verdict isHighRisk (patient [] ?hi ?cool ?old) \<and> \<not> verdict hasFever (patient [] ?hi ?cool ?old)
       \<and> \<not> verdict hasDataQualityIssues_flag (patient [] ?hi ?cool ?old)"
    unfolding verdicts_value[OF b(2)] by (simp add: verdict_eval)
  have 6: "verdict isHighRisk (patient [] ?hi JNull ?old) \<and> \<not> verdict hasFever (patient [] ?hi JNull ?old)
       \<and> verdict hasDataQualityIssues_flag (patient [] ?hi JNull ?old)"
    unfolding verdicts_value[OF b(2)] by (simp add: verdict_eval)
  have 7: "verdict isHighRisk (patient [] ?hi ?hot ?old) \<and> verdict hasFever (patient [] ?hi ?hot ?old)
       \<and> \<not> verdict hasDataQualityIssues_flag (patient [] ?hi ?hot ?old)"
    unfolding verdicts_value[OF b(2)] by (simp add: verdict_eval)
  have 8: "verdict isHighRisk (patient [] ?bad ?hot ?old) \<and> verdict hasFever (patient [] ?bad ?hot ?old)
       \<and> verdict hasDataQualityIssues_flag (patient [] ?bad ?hot ?old)"
    unfolding verdicts_value[OF b(3)] by (simp add: verdict_eval)
  show ?thesis
  proof (cases h; cases f; cases d)
  qed (use 1 2 3 4 5 6 7 8 in blast)+
qed

lemma scenario_verdicts:
  "map (verdict isHighRisk) scenario = [False, True, False, True, False]"
  "map (verdict hasFever) scenario = [False, True, False, True, False]"
  "map (verdict hasDataQualityIssues_flag) scenario = [False, False, True, False, True]"
proof -
  have b: "calculateBloodPressureRisk (blood_pressure (patient i (JString ''118/76'') t a)) = Inr 0"
    "calculateBloodPressureRisk (blood_pressure (patient i (JString ''150/95'') t a)) = Inr 3"
    "calculateBloodPressureRisk (blood_pressure (patient i (JString []) t a)) = Inr 0"
    "calculateBloodPressureRisk (blood_pressure (patient i (JString ''130/89'') t a)) = Inr 2"
    "calculateBloodPressureRisk (blood_pressure (patient i (JString ''150/95/100'') t a)) = Inr 3"
    for i t a
    by (simp_all add: patient_def bp_risk_examples)
  show "map (verdict isHighRisk) scenario = [False, True, False, True, False]"
    "map (verdict hasFever) scenario = [False, True, False, True, False]"
    "map (verdict hasDataQualityIssues_flag) scenario = [False, False, True, False, True]"
    unfolding scenario_def list.map verdicts_value[OF b(1)] verdicts_value[OF b(2)]
      verdicts_value[OF b(3)] verdicts_value[OF b(4)] verdicts_value[OF b(5)]
    by (simp_all add: verdict_eval)
qed

lemma scenario_flagged:
  "map patient_id (filter (verdict isHighRisk) scenario) = [''p2'', ''p4'']"
  "map patient_id (filter (verdict hasFever) scenario) = [''p2'', ''p4'']"
  "map patient_id (filter (verdict hasDataQualityIssues_flag) scenario) = [''p3'', ''p2'']"
proof -
  have v: "verdict isHighRisk (scenario ! 0) = False" "verdict isHighRisk (scenario ! 1) = True"
    "verdict isHighRisk (scenario ! 2) = False" "verdict isHighRisk (scenario ! 3) = True"
    "verdict isHighRisk (scenario ! 4) = False"
    "verdict hasFever (scenario ! 0) = False" "verdict hasFever (scenario ! 1) = True"
    "verdict hasFever (scenario ! 2) = False" "verdict hasFever (scenario ! 3) = True"
    "verdict hasFever (scenario ! 4) = False"
    "verdict hasDataQualityIssues_flag (scenario ! 0) = False"
    "verdict hasDataQualityIssues_flag (scenario ! 1) = False"
    "verdict hasDataQualityIssues_flag (scenario ! 2) = True"
    "verdict hasDataQualityIssues_flag (scenario ! 3) = False"
    "verdict hasDataQualityIssues_flag (scenario ! 4) = True"
    using scenario_verdicts by (simp_all add: scenario_def)
  show "map patient_id (filter (verdict isHighRisk) scenario) = [''p2'', ''p4'']"
    "map patient_id (filter (verdict hasFever) scenario) = [''p2'', ''p4'']"
    "map patient_id (filter (verdict hasDataQualityIssues_flag) scenario) = [''p3'', ''p2'']"
    using v by (simp_all add: scenario_def patient_def)
qed

lemma analyzePatients_flagged:
  "\<exists>r. analyzePatients ps = Inr r
      \<and> map checkRisk ps = map Inr (analyses r)
      \<and> highRiskPatients r = map patient_id (filter (verdict isHighRisk) ps)
      \<and> feverPatients r = map patient_id (filter (verdict hasFever) ps)
      \<and> dataQualityIssues r = map patient_id (filter (verdict hasDataQualityIssues_flag) ps)"
proof -
  from map_checked_checkRisk[of ps] obtain as where
    m: "map_checked checkRisk ps = Inr as" and e: "map checkRisk ps = map Inr as" by blast
  let ?r = "\<lparr>highRiskPatients = map patientId (filter isHighRisk as),
             feverPatients = map patientId (filter hasFever as),
             dataQualityIssues = map patientId (filter hasDataQualityIssues_flag as),
             analyses = as\<rparr>"
  have r: "analyzePatients ps = Inr ?r" by (simp add: analyzePatients_def m)
  have h: "highRiskPatients ?r = map patient_id (filter (verdict isHighRisk) ps)"
    using ids_of_flagged[OF e] by simp
  have f: "feverPatients ?r = map patient_id (filter (verdict hasFever) ps)"
    using ids_of_flagged[OF e] by simp
  have d: "dataQualityIssues ?r = map patient_id (filter (verdict hasDataQualityIssues_flag) ps)"
    using ids_of_flagged[OF e] by simp
  have a: "map checkRisk ps = map Inr (analyses ?r)" using e by simp
  from r a h f d show ?thesis by (intro exI[of _ ?r] conjI)
qed

lemma single_record_lists:
  "\<exists>r. analyzePatients [p] = Inr r
     \<and> (patient_id p \<in> set (highRiskPatients r)) = verdict isHighRisk p
     \<and> (patient_id p \<in> set (feverPatients r)) = verdict hasFever p
     \<and> (patient_id p \<in> set (dataQualityIssues r)) = verdict hasDataQualityIssues_flag p"
proof -
  from analyzePatients_flagged[of "[p]"] obtain r where
    "analyzePatients [p] = Inr r"
    "highRiskPatients r = map patient_id (filter (verdict isHighRisk) [p])"
    "feverPatients r = map patient_id (filter (verdict hasFever) [p])"
    "dataQualityIssues r = map patient_id (filter (verdict hasDataQualityIssues_flag) [p])"
    by blast
  then show ?thesis by (intro exI[of _ r]) simp
qed

text \<open>
  C8. On every list of records \<^verbatim>\<open>analyzePatients\<close> returns the verdict of
  \<^verbatim>\<open>checkRisk\<close> on each record, in order, and three lists of identifiers: those of
  the records whose verdict is high risk, has fever, has data-quality issues, each in the
  order of the input (a subsequence of the input's identifiers, repeated identifiers
  kept). The three memberships are independent: for each of the eight combinations of
  the three flags there is a record whose identifier is in exactly the lists the
  combination names.
\<close>

theorem analyzePatients_lists:
  "(\<exists>r. analyzePatients ps = Inr r
      \<and> map checkRisk ps = map Inr (analyses r)
      \<and> highRiskPatients r = map patient_id (filter (verdict isHighRisk) ps)
      \<and> feverPatients r = map patient_id (filter (verdict hasFever) ps)
      \<and> dataQualityIssues r = map patient_id (filter (verdict hasDataQualityIssues_flag) ps)
      \<and> subseq (highRiskPatients r) (map patient_id ps)
      \<and> subseq (feverPatients r) (map patient_id ps)
      \<and> subseq (dataQualityIssues r) (map patient_id ps))
   \<and> (\<forall>h f d. \<exists>p r. analyzePatients [p] = Inr r
          \<and> (patient_id p \<in> set (highRiskPatients r)) = h
          \<and> (patient_id p \<in> set (feverPatients r)) = f
          \<and> (patient_id p \<in> set (dataQualityIssues r)) = d)"
proof -
  from analyzePatients_flagged[of ps] obtain r where
    r: "analyzePatients ps = Inr r"
    and a: "map checkRisk ps = map Inr (analyses r)"
    and h: "highRiskPatients r = map patient_id (filter (verdict isHighRisk) ps)"
    and f: "feverPatients r = map patient_id (filter (verdict hasFever) ps)"
    and d: "dataQualityIssues r = map patient_id (filter (verdict hasDataQualityIssues_flag) ps)"
    by blast
  have s: "subseq (highRiskPatients r) (map patient_id ps)"
    "subseq (feverPatients r) (map patient_id ps)"
    "subseq (dataQualityIssues r) (map patient_id ps)"
    unfolding h f d by (rule subseq_ids)+
  have 1: "\<exists>r. analyzePatients ps = Inr r
      \<and> map checkRisk ps = map Inr (analyses r)
      \<and> highRiskPatients r = map patient_id (filter (verdict isHighRisk) ps)
      \<and> feverPatients r = map patient_id (filter (verdict hasFever) ps)
      \<and> dataQualityIssues r = map patient_id (filter (verdict hasDataQualityIssues_flag) ps)
      \<and> subseq (highRiskPatients r) (map patient_id ps)
      \<and> subseq (feverPatients r) (map patient_id ps)
      \<and> subseq (dataQualityIssues r) (map patient_id ps)"
    using r a h f d s by (intro exI[of _ r] conjI)
  have 2: "\<exists>p r. analyzePatients [p] = Inr r
          \<and> (patient_id p \<in> set (highRiskPatients r)) = h
          \<and> (patient_id p \<in> set (feverPatients r)) = f
          \<and> (patient_id p \<in> set (dataQualityIssues r)) = d" for h f d
  proof -
    from verdicts_independent[of h f d] obtain p where
      v: "verdict isHighRisk p = h" "verdict hasFever p = f"
        "verdict hasDataQualityIssues_flag p = d"
      by blast
    from single_record_lists[of p] show ?thesis unfolding v by blast
  qed
  from 1 2 show ?thesis by blast
qed

theorem analyzePatients_lists_witness:
  "\<exists>r. analyzePatients scenario = Inr r
     \<and> length (analyses r) = 5
     \<and> highRiskPatients r = [''p2'', ''p4'']
     \<and> feverPatients r = [''p2'', ''p4'']
     \<and> dataQualityIssues r = [''p3'', ''p2'']"
proof -
  from analyzePatients_lists[of scenario] obtain r where
    r: "analyzePatients scenario = Inr r"
    and a: "map checkRisk scenario = map Inr (analyses r)"
    and h: "highRiskPatients r = map patient_id (filter (verdict isHighRisk) scenario)"
    and f: "feverPatients r = map patient_id (filter (verdict hasFever) scenario)"
    and d: "dataQualityIssues r = map patient_id (filter (verdict hasDataQualityIssues_flag) scenario)"
    by blast
  from a have "length (map checkRisk scenario) = length (map Inr (analyses r))" by simp
  then have l: "length (analyses r) = 5" by (simp add: scenario_def)
  from r l h f d show ?thesis unfolding scenario_flagged by blast
qed

end
